theory Spec2Isabelle
  imports Complex_Main
begin

section \<open>Data model (types/lending.ts)\<close>

text \<open>
  The ledger of the group lending application, as \<^verbatim>\<open>LendingApp.tsx\<close> keeps it in its
  React state. Conventions of the embedding:
  \<^item> a TypeScript \<^verbatim>\<open>number\<close> holding money or a rate is a rational (\<^typ>\<open>rat\<close>), and
    the operations that compute with money are given in two readings. In the first,
    sums, differences, products and comparisons are the mathematical ones. In the
    second (the operations named \<open>_fl\<close>) every sum, difference and product, every
    decimal literal and every \<^verbatim>\<open>parseFloat\<close> is followed by the rounding \<open>fl\<close> of the number
    type: with \<open>fl = round64\<close>, rounding to the nearest IEEE-754 double, ties to even,
    this is the arithmetic of JavaScript on finite doubles, and with the identity for
    \<open>fl\<close> it is the first reading again (\<open>step_fl_exact\<close>);
  \<^item> a \<^verbatim>\<open>Date\<close> is its time value, the milliseconds since the epoch, a \<^typ>\<open>nat\<close>;
    \<^verbatim>\<open>new Date()\<close> and \<^verbatim>\<open>Date.now()\<close> read the clock, which every operation receives as
    its argument \<open>now\<close>;
  \<^item> the calendar arithmetic of \<^verbatim>\<open>Date\<close> (\<^verbatim>\<open>setDate(getDate() + 7)\<close>,
    \<^verbatim>\<open>setMonth(getMonth() + 1)\<close>, both in local time) belongs to the JavaScript runtime
    and is a parameter, the record \<open>Calendar\<close>;
  \<^item> a \<^verbatim>\<open>throw new Error(...)\<close> is a result \<open>Inl e\<close>; a bare \<^verbatim>\<open>return\<close> and a state updater
    that returns \<^verbatim>\<open>prevState\<close> are \<open>Inr\<close> of the unchanged state;
  \<^item> the state a callback closes over and the \<^verbatim>\<open>prevState\<close> its updater receives are the
    same state: commands run one after the other.
\<close>

type_synonym Date = nat

datatype Role = Lender | Borrower

datatype PaymentSchedule = Weekly | Monthly

datatype LoanStatus = Pending | Approved | Rejected

datatype PaymentMethod = Cash | Bank | Card | Mobile

record User =
  id :: string
  name :: string
  role :: Role
  joinedAt :: Date

record Capital =
  id :: string
  lenderId :: string
  amount :: rat
  addedAt :: Date

record Loan =
  id :: string
  borrowerId :: string
  borrowerName :: string
  amount :: rat
  interestRate :: rat
  paymentSchedule :: PaymentSchedule
  status :: LoanStatus
  requestedAt :: Date
  approvedAt :: "Date option"
  dueDate :: "Date option"
  totalDue :: rat
  principalPaid :: rat
  interestPaid :: rat
  isOverdue :: bool
  overdueInterestApplied :: bool

record Payment =
  id :: string
  loanId :: string
  borrowerId :: string
  amount :: rat
  method' :: PaymentMethod
  paidAt :: Date
  principalAmount :: rat
  interestAmount :: rat

record LendingState =
  users :: "User list"
  capital :: "Capital list"
  loans :: "Loan list"
  payments :: "Payment list"
  currentUser :: "User option"

record Calendar =
  plus7Days :: "Date \<Rightarrow> Date"
  plus1Month :: "Date \<Rightarrow> Date"

text \<open>The messages of the errors thrown, one constructor each.\<close>

datatype error =
    MaximumBorrowers              \<comment> \<open>Maximum 19 borrowers allowed\<close>
  | OnlyOneLender                 \<comment> \<open>Only one lender allowed\<close>
  | InsufficientAvailableCapital  \<comment> \<open>Insufficient available capital\<close>
  | MaximumLoanAmount             \<comment> \<open>Maximum loan amount is $1000\<close>
  | ActiveLoanExists              \<comment> \<open>You already have an active loan\<close>
  | InsufficientCapitalToApprove  \<comment> \<open>Insufficient capital to approve loan\<close>
  | PaymentExceedsBalance         \<comment> \<open>Payment amount exceeds remaining balance\<close>
  | InvalidAmount                 \<comment> \<open>Please enter a valid (payment) amount\<close>

definition MAX_BORROWERS :: nat where
  "MAX_BORROWERS = 19"

definition MAX_LOAN_AMOUNT :: rat where
  "MAX_LOAN_AMOUNT = 1000"

definition WEEKLY_INTEREST_RATE :: rat where
  "WEEKLY_INTEREST_RATE = 2 / 100"

definition MONTHLY_INTEREST_RATE :: rat where
  "MONTHLY_INTEREST_RATE = 6 / 100"

text \<open>
  \<^verbatim>\<open>Date.now().toString()\<close>: the decimal digits of the clock reading, the identifier
  of every entity created.
\<close>

definition digit :: "nat \<Rightarrow> char" where
  "digit d = ''0123456789'' ! d"

fun toString :: "nat \<Rightarrow> string" where
  "toString n =
     (if n < 10 then [digit n]
      else toString (n div 10) @ [digit (n mod 10)])"

declare toString.simps [simp del]

definition initialState :: LendingState where
  "initialState = \<lparr>users = [], capital = [], loans = [], payments = [], currentUser = None\<rparr>"

section \<open>Operations (LendingApp.tsx)\<close>

text \<open>The callback of \<^verbatim>\<open>prevState.loans.map\<close> in \<^verbatim>\<open>updateOverdueLoans\<close>.\<close>

definition updateOverdueLoan :: "Date \<Rightarrow> Loan \<Rightarrow> Loan" where
  "updateOverdueLoan now loan =
     (if Loan.status loan = Approved \<and> (case dueDate loan of None \<Rightarrow> False | Some d \<Rightarrow> now > d) then
        let wasOverdue = isOverdue loan;
            newLoan = loan\<lparr>isOverdue := True\<rparr>
        in if \<not> wasOverdue \<and> \<not> overdueInterestApplied loan then
             let remainingBalance = totalDue loan - principalPaid loan - interestPaid loan;
                 overdueInterest = remainingBalance *
                   (if paymentSchedule loan = Weekly then WEEKLY_INTEREST_RATE
                    else MONTHLY_INTEREST_RATE)
             in newLoan\<lparr>totalDue := totalDue newLoan + overdueInterest,
                        overdueInterestApplied := True\<rparr>
           else newLoan
      else loan)"

definition updateOverdueLoans :: "Date \<Rightarrow> LendingState \<Rightarrow> LendingState" where
  "updateOverdueLoans now prevState =
     prevState\<lparr>loans := map (updateOverdueLoan now) (loans prevState)\<rparr>"

definition registerUser :: "Date \<Rightarrow> string \<Rightarrow> Role \<Rightarrow> LendingState \<Rightarrow> error + LendingState" where
  "registerUser = (\<lambda>now name role state.
      let borrowerCount = length (filter (\<lambda>u. User.role u = Borrower) (users state));
          lenderCount = length (filter (\<lambda>u. User.role u = Lender) (users state))
      in if role = Borrower \<and> borrowerCount \<ge> MAX_BORROWERS then Inl MaximumBorrowers
         else if role = Lender \<and> lenderCount \<ge> 1 then Inl OnlyOneLender
         else
           let newUser = \<lparr>User.id = toString now, User.name = name, User.role = role,
                           joinedAt = now\<rparr>
           in Inr (state\<lparr>users := users state @ [newUser], currentUser := Some newUser\<rparr>))"

definition depositCapital :: "Date \<Rightarrow> rat \<Rightarrow> LendingState \<Rightarrow> LendingState" where
  "depositCapital = (\<lambda>now amount state.
      case currentUser state of
        None \<Rightarrow> state
      | Some cu \<Rightarrow>
          if User.role cu \<noteq> Lender then state
          else
            let newCapital = \<lparr>Capital.id = toString now, lenderId = User.id cu,
                              Capital.amount = amount, addedAt = now\<rparr>
            in state\<lparr>capital := capital state @ [newCapital]\<rparr>)"

definition withdrawCapital :: "Date \<Rightarrow> rat \<Rightarrow> LendingState \<Rightarrow> error + LendingState" where
  "withdrawCapital = (\<lambda>now amount state.
      case currentUser state of
        None \<Rightarrow> Inr state
      | Some cu \<Rightarrow>
          if User.role cu \<noteq> Lender then Inr state
          else
            let totalCapital = foldl (\<lambda>sum cap. sum + Capital.amount cap) 0 (capital state);
                totalLoaned = foldl (\<lambda>sum loan. sum + Loan.amount loan) 0
                                (filter (\<lambda>loan. Loan.status loan = Approved) (loans state));
                availableCapital = totalCapital - totalLoaned
            in if amount > availableCapital then Inl InsufficientAvailableCapital
               else
                 let newCapital = \<lparr>Capital.id = toString now, lenderId = User.id cu,
                                   Capital.amount = - amount, addedAt = now\<rparr>
                 in Inr (state\<lparr>capital := capital state @ [newCapital]\<rparr>))"

definition requestLoan :: "Date \<Rightarrow> rat \<Rightarrow> PaymentSchedule \<Rightarrow> LendingState \<Rightarrow> error + LendingState" where
  "requestLoan = (\<lambda>now amount paymentSchedule state.
      case currentUser state of
        None \<Rightarrow> Inr state
      | Some cu \<Rightarrow>
          if User.role cu \<noteq> Borrower then Inr state
          else if amount > MAX_LOAN_AMOUNT then Inl MaximumLoanAmount
          else
            let hasActiveLoan = list_ex (\<lambda>loan.
                  Loan.borrowerId loan = User.id cu \<and>
                  (Loan.status loan = Pending \<or> Loan.status loan = Approved)) (loans state)
            in if hasActiveLoan then Inl ActiveLoanExists
               else
                 let interestRate = (if paymentSchedule = Weekly then WEEKLY_INTEREST_RATE
                                     else MONTHLY_INTEREST_RATE);
                     totalDue = amount + (amount * interestRate);
                     newLoan = \<lparr>Loan.id = toString now, Loan.borrowerId = User.id cu,
                                borrowerName = User.name cu, Loan.amount = amount,
                                interestRate = interestRate, paymentSchedule = paymentSchedule,
                                status = Pending, requestedAt = now, approvedAt = None,
                                dueDate = None, totalDue = totalDue, principalPaid = 0,
                                interestPaid = 0, isOverdue = False,
                                overdueInterestApplied = False\<rparr>
                 in Inr (state\<lparr>loans := loans state @ [newLoan]\<rparr>))"

definition approveLoan :: "Calendar \<Rightarrow> Date \<Rightarrow> string \<Rightarrow> bool \<Rightarrow> LendingState \<Rightarrow> error + LendingState" where
  "approveLoan = (\<lambda>cal now loanId approve prevState.
      case currentUser prevState of
        None \<Rightarrow> Inr prevState
      | Some cu \<Rightarrow>
          if User.role cu \<noteq> Lender then Inr prevState
          else
            (case find (\<lambda>l. Loan.id l = loanId) (loans prevState) of
               None \<Rightarrow> Inr prevState
             | Some loan \<Rightarrow>
                 if approve then
                   let totalCapital = foldl (\<lambda>sum cap. sum + Capital.amount cap) 0
                                        (capital prevState);
                       totalLoaned = foldl (\<lambda>sum l. sum + Loan.amount l) 0
                                       (filter (\<lambda>l. Loan.status l = Approved) (loans prevState));
                       availableCapital = totalCapital - totalLoaned
                   in if Loan.amount loan > availableCapital then Inl InsufficientCapitalToApprove
                      else
                        let dueDate = (if paymentSchedule loan = Weekly then plus7Days cal now
                                       else plus1Month cal now)
                        in Inr (prevState\<lparr>loans := map (\<lambda>l.
                                  if Loan.id l = loanId
                                  then l\<lparr>status := Approved, approvedAt := Some now,
                                         dueDate := Some dueDate\<rparr>
                                  else l) (loans prevState)\<rparr>)
                 else
                   Inr (prevState\<lparr>loans := map (\<lambda>l.
                          if Loan.id l = loanId then l\<lparr>status := Rejected\<rparr> else l)
                          (loans prevState)\<rparr>)))"

definition recordPayment :: "Calendar \<Rightarrow> Date \<Rightarrow> string \<Rightarrow> rat \<Rightarrow> PaymentMethod \<Rightarrow> LendingState \<Rightarrow> error + LendingState" where
  "recordPayment = (\<lambda>cal now loanId amount method prevState.
      case currentUser prevState of
        None \<Rightarrow> Inr prevState
      | Some cu \<Rightarrow>
          if User.role cu \<noteq> Borrower then Inr prevState
          else
            (case find (\<lambda>l. Loan.id l = loanId) (loans prevState) of
               None \<Rightarrow> Inr prevState
             | Some loan \<Rightarrow>
                 if Loan.status loan \<noteq> Approved then Inr prevState
                 else
                   let remainingBalance = totalDue loan - principalPaid loan - interestPaid loan
                   in if amount > remainingBalance then Inl PaymentExceedsBalance
                      else
                        let remainingInterest =
                              (Loan.amount loan * interestRate loan) - interestPaid loan +
                              (if overdueInterestApplied loan
                               then Loan.amount loan * interestRate loan else 0);
                            interestAmount = min amount remainingInterest;
                            principalAmount = amount - interestAmount;
                            newPayment = \<lparr>Payment.id = toString now, loanId = loanId,
                                           Payment.borrowerId = User.id cu,
                                           Payment.amount = amount, method' = method,
                                           paidAt = now, principalAmount = principalAmount,
                                           interestAmount = interestAmount\<rparr>;
                            updatedLoan = loan\<lparr>principalPaid := principalPaid loan + principalAmount,
                                               interestPaid := interestPaid loan + interestAmount\<rparr>;
                            updatedLoan =
                              (if principalPaid updatedLoan + interestPaid updatedLoan
                                    < totalDue updatedLoan
                               then
                                 let newDueDate =
                                       (if paymentSchedule loan = Weekly then plus7Days cal now
                                        else plus1Month cal now)
                                 in updatedLoan\<lparr>dueDate := Some newDueDate, isOverdue := False,
                                                overdueInterestApplied := False\<rparr>
                               else updatedLoan)
                        in Inr (prevState\<lparr>loans := map (\<lambda>l.
                                  if Loan.id l = loanId then updatedLoan else l) (loans prevState),
                                  payments := payments prevState @ [newPayment]\<rparr>)))"

definition systemReset :: "LendingState \<Rightarrow> LendingState" where
  "systemReset state =
     (case currentUser state of
        None \<Rightarrow> state
      | Some cu \<Rightarrow>
          if User.role cu \<noteq> Lender then state
          else \<lparr>users = [cu], capital = [], loans = [], payments = [],
                 currentUser = Some cu\<rparr>)"

definition switchUser :: "string \<Rightarrow> LendingState \<Rightarrow> LendingState" where
  "switchUser userId state =
     (case find (\<lambda>u. User.id u = userId) (users state) of
        None \<Rightarrow> state
      | Some user \<Rightarrow> state\<lparr>currentUser := Some user\<rparr>)"

section \<open>The dashboards (LenderDashboard.tsx, which holds both)\<close>

text \<open>
  The capital figures the lender dashboard shows, computed from the lists it is given:
  the same three expressions that \<open>withdrawCapital\<close> and \<open>approveLoan\<close> evaluate.
\<close>

definition totalCapital :: "LendingState \<Rightarrow> rat" where
  "totalCapital state = foldl (\<lambda>sum cap. sum + Capital.amount cap) 0 (capital state)"

definition totalLoaned :: "LendingState \<Rightarrow> rat" where
  "totalLoaned state =
     foldl (\<lambda>sum loan. sum + Loan.amount loan) 0
       (filter (\<lambda>loan. Loan.status loan = Approved) (loans state))"

definition availableCapital :: "LendingState \<Rightarrow> rat" where
  "availableCapital state = totalCapital state - totalLoaned state"

text \<open>The lists whose entries carry the decision and the payment forms.\<close>

definition pendingLoans :: "LendingState \<Rightarrow> Loan list" where
  "pendingLoans state = filter (\<lambda>loan. Loan.status loan = Pending) (loans state)"

definition activeLoans :: "LendingState \<Rightarrow> Loan list" where
  "activeLoans state = filter (\<lambda>loan. Loan.status loan = Approved) (loans state)"

text \<open>
  The decisions the lender dashboard offers: for every entry of \<open>pendingLoans\<close> a button
  that calls \<^verbatim>\<open>handleLoanAction(loan.id, true)\<close>, disabled when the loan's amount is over the
  available capital, and one that calls \<^verbatim>\<open>handleLoanAction(loan.id, false)\<close>. (Both are also
  disabled while a call is in progress.)
\<close>

definition decisionButtons :: "LendingState \<Rightarrow> (string \<times> bool) list" where
  "decisionButtons state =
     concat (map (\<lambda>loan.
        (if Loan.amount loan > availableCapital state then [] else [(Loan.id loan, True)]) @
        [(Loan.id loan, False)]) (pendingLoans state))"

text \<open>
  The form handlers. Each parses the text of its input field with \<^verbatim>\<open>parseFloat\<close> and
  refuses \<^verbatim>\<open>isNaN(amount) || amount <= 0\<close>; the model starts from the parsed number, so the
  refusal is \<open>amount \<le> 0\<close>.
\<close>

definition handleDeposit :: "Date \<Rightarrow> rat \<Rightarrow> LendingState \<Rightarrow> error + LendingState" where
  "handleDeposit = (\<lambda>now amount state.
      if amount \<le> 0 then Inl InvalidAmount else Inr (depositCapital now amount state))"

definition handleWithdraw :: "Date \<Rightarrow> rat \<Rightarrow> LendingState \<Rightarrow> error + LendingState" where
  "handleWithdraw = (\<lambda>now amount state.
      if amount \<le> 0 then Inl InvalidAmount else withdrawCapital now amount state)"

definition handleLoanAction :: "Calendar \<Rightarrow> Date \<Rightarrow> string \<Rightarrow> bool \<Rightarrow> LendingState \<Rightarrow> error + LendingState" where
  "handleLoanAction = (\<lambda>cal now loanId approve state. approveLoan cal now loanId approve state)"

definition handleLoanRequest :: "Date \<Rightarrow> rat \<Rightarrow> PaymentSchedule \<Rightarrow> LendingState \<Rightarrow> error + LendingState" where
  "handleLoanRequest = (\<lambda>now amount paymentSchedule state.
      if amount \<le> 0 then Inl InvalidAmount
      else if amount > 1000 then Inl MaximumLoanAmount
      else requestLoan now amount paymentSchedule state)"

definition handlePayment :: "Calendar \<Rightarrow> Date \<Rightarrow> string \<Rightarrow> rat \<Rightarrow> PaymentMethod \<Rightarrow> LendingState \<Rightarrow> error + LendingState" where
  "handlePayment = (\<lambda>cal now loanId amount method state.
      if amount \<le> 0 then Inl InvalidAmount
      else recordPayment cal now loanId amount method state)"

section \<open>Commands and reachable states\<close>

text \<open>
  What a session can do to the ledger: the forms of the two dashboards, the registration
  and the user switch, the reset, and the tick of the one-minute timer that runs the
  overdue sweep. Registration and the loan decision are taken at the level of
  \<open>registerUser\<close> and \<open>approveLoan\<close>, without the restrictions of the screens that call
  them (a name not yet used; a decision offered for pending loans only), so the
  reachable states below include every state a session can show.
\<close>

datatype command =
    RegisterUser string Role
  | SwitchUser string
  | DepositCapital rat
  | WithdrawCapital rat
  | RequestLoan rat PaymentSchedule
  | DecideLoan string bool
  | RecordPayment string rat PaymentMethod
  | SystemReset
  | OverdueSweep

fun step :: "Calendar \<Rightarrow> Date \<Rightarrow> command \<Rightarrow> LendingState \<Rightarrow> error + LendingState" where
  "step cal now (RegisterUser n r) s = registerUser now n r s"
| "step cal now (SwitchUser u) s = Inr (switchUser u s)"
| "step cal now (DepositCapital a) s = handleDeposit now a s"
| "step cal now (WithdrawCapital a) s = handleWithdraw now a s"
| "step cal now (RequestLoan a p) s = handleLoanRequest now a p s"
| "step cal now (DecideLoan l b) s = handleLoanAction cal now l b s"
| "step cal now (RecordPayment l a m) s = handlePayment cal now l a m s"
| "step cal now SystemReset s = Inr (systemReset s)"
| "step cal now OverdueSweep s = Inr (updateOverdueLoans now s)"

text \<open>
  A command that throws leaves the state as it was. \<open>run\<close> plays commands, each with
  the clock reading at which it is issued, and stops at the first error.
\<close>

fun run :: "Calendar \<Rightarrow> (Date \<times> command) list \<Rightarrow> LendingState \<Rightarrow> error + LendingState" where
  "run cal [] s = Inr s"
| "run cal ((now, c) # cs) s =
     (case step cal now c s of Inl e \<Rightarrow> Inl e | Inr s' \<Rightarrow> run cal cs s')"

text \<open>
  The states of a session: from the empty ledger, by commands issued at strictly
  increasing clock readings (two commands of a session are never issued within the
  same millisecond).
\<close>

inductive reachable :: "Calendar \<Rightarrow> Date \<Rightarrow> LendingState \<Rightarrow> bool" for cal :: Calendar where
  reachable_init: "reachable cal 0 initialState"
| reachable_step: "reachable cal t s \<Longrightarrow> t < t' \<Longrightarrow> step cal t' c s = Inr s' \<Longrightarrow> reachable cal t' s'"

section \<open>JavaScript numbers\<close>

text \<open>
  A finite IEEE-754 double is a rational number, and an arithmetic operation of
  JavaScript on finite doubles is the exact operation followed by rounding to the
  nearest double, ties to the even significand. \<open>round64\<close> is that rounding. For
  \<open>a > 0\<close>, \<open>binade a\<close> is the power of two with \<open>binade a \<le> a < 2 * binade a\<close>, found by
  halving or doubling; \<open>ulp64 a\<close> is the distance between neighbouring doubles there
  (53 significant bits, and no finer than the subnormal spacing, \<open>1 / 2 ^ 1074\<close>). A
  result of magnitude \<open>2 ^ 1024\<close> or more, which JavaScript gives as \<open>Infinity\<close>, is outside
  this reading, and so is \<open>NaN\<close>; neither arises in the sessions evaluated below.
\<close>

function scaleUp :: "rat \<Rightarrow> rat \<Rightarrow> rat" where
  "scaleUp x s = (if 2 \<le> x then scaleUp (x / 2) (s * 2) else s)"
  by pat_completeness auto
termination
proof (relation "measure (\<lambda>(x, s). nat \<lfloor>x\<rfloor>)")
  show "wf (measure (\<lambda>(x, s). nat \<lfloor>x\<rfloor>))" by simp
next
  fix x s :: rat
  assume "2 \<le> x"
  then have "x / 2 \<le> x - 1" by simp
  then have "\<lfloor>x / 2\<rfloor> \<le> \<lfloor>x - 1\<rfloor>" by (rule floor_mono)
  also have "\<dots> = \<lfloor>x\<rfloor> - 1" by simp
  finally have "\<lfloor>x / 2\<rfloor> < \<lfloor>x\<rfloor>" by simp
  moreover from \<open>2 \<le> x\<close> have "0 < \<lfloor>x\<rfloor>" by simp
  ultimately show "((x / 2, s * 2), (x, s)) \<in> measure (\<lambda>(x, s). nat \<lfloor>x\<rfloor>)" by simp
qed

function scaleDown :: "rat \<Rightarrow> rat \<Rightarrow> rat" where
  "scaleDown x s = (if 0 < x \<and> x < 1 then scaleDown (x * 2) (s / 2) else s)"
  by pat_completeness auto
termination
proof (relation "measure (\<lambda>(x, s). nat \<lceil>1 / x\<rceil>)")
  show "wf (measure (\<lambda>(x, s). nat \<lceil>1 / x\<rceil>))" by simp
next
  fix x s :: rat
  assume a: "0 < x \<and> x < 1"
  then have y: "1 < 1 / x" by simp
  then have c: "2 \<le> \<lceil>1 / x\<rceil>" by linarith
  have "1 / (x * 2) = (1 / x) / 2" by simp
  also have "\<dots> \<le> of_int \<lceil>1 / x\<rceil> / 2" by (intro divide_right_mono) simp_all
  also from c have "\<dots> \<le> of_int (\<lceil>1 / x\<rceil> - 1)" by simp
  finally have "\<lceil>1 / (x * 2)\<rceil> \<le> \<lceil>1 / x\<rceil> - 1" by (rule ceiling_le)
  with c have "nat \<lceil>1 / (x * 2)\<rceil> < nat \<lceil>1 / x\<rceil>" by linarith
  then show "((x * 2, s / 2), (x, s)) \<in> measure (\<lambda>(x, s). nat \<lceil>1 / x\<rceil>)"
    unfolding in_measure prod.case .
qed

declare scaleUp.simps [simp del] scaleDown.simps [simp del]

definition binade :: "rat \<Rightarrow> rat" where
  "binade a = (if 1 \<le> a then scaleUp a 1 else scaleDown a 1)"

definition ulp64 :: "rat \<Rightarrow> rat" where
  "ulp64 a = max (binade a) (1 / 2 ^ 1022) / 2 ^ 52"

definition roundHalfEven :: "rat \<Rightarrow> int" where
  "roundHalfEven n =
     (let r = \<lfloor>n\<rfloor>; f = n - of_int r
      in if f < 1 / 2 then r else if 1 / 2 < f then r + 1
         else if even r then r else r + 1)"

definition round64 :: "rat \<Rightarrow> rat" where
  "round64 x =
     (if x = 0 then 0
      else sgn x * of_int (roundHalfEven (\<bar>x\<bar> / ulp64 \<bar>x\<bar>)) * ulp64 \<bar>x\<bar>)"

section \<open>The operations in the arithmetic of the number type (LendingApp.tsx)\<close>

text \<open>
  The operations that compute with money, once more, with the rounding \<open>fl\<close> after every
  \<^verbatim>\<open>+\<close>, \<^verbatim>\<open>-\<close> and \<^verbatim>\<open>*\<close> (a compound \<^verbatim>\<open>a - b - c\<close> is \<^verbatim>\<open>(a - b) - c\<close>, two roundings) and on the
  literals \<^verbatim>\<open>0.02\<close> and \<^verbatim>\<open>0.06\<close>. Negation, \<^verbatim>\<open>Math.min\<close> and the comparisons are exact.
  \<open>registerUser\<close>, \<open>depositCapital\<close>, \<open>switchUser\<close> and \<open>systemReset\<close> do no arithmetic.
\<close>

definition updateOverdueLoan_fl :: "(rat \<Rightarrow> rat) \<Rightarrow> Date \<Rightarrow> Loan \<Rightarrow> Loan" where
  "updateOverdueLoan_fl fl now loan =
     (if Loan.status loan = Approved \<and> (case dueDate loan of None \<Rightarrow> False | Some d \<Rightarrow> now > d) then
        let wasOverdue = isOverdue loan;
            newLoan = loan\<lparr>isOverdue := True\<rparr>
        in if \<not> wasOverdue \<and> \<not> overdueInterestApplied loan then
             let remainingBalance = fl (fl (totalDue loan - principalPaid loan) - interestPaid loan);
                 overdueInterest = fl (remainingBalance *
                   (if paymentSchedule loan = Weekly then fl WEEKLY_INTEREST_RATE
                    else fl MONTHLY_INTEREST_RATE))
             in newLoan\<lparr>totalDue := fl (totalDue newLoan + overdueInterest),
                        overdueInterestApplied := True\<rparr>
           else newLoan
      else loan)"

definition updateOverdueLoans_fl :: "(rat \<Rightarrow> rat) \<Rightarrow> Date \<Rightarrow> LendingState \<Rightarrow> LendingState" where
  "updateOverdueLoans_fl fl now prevState =
     prevState\<lparr>loans := map (updateOverdueLoan_fl fl now) (loans prevState)\<rparr>"

definition withdrawCapital_fl :: "(rat \<Rightarrow> rat) \<Rightarrow> Date \<Rightarrow> rat \<Rightarrow> LendingState \<Rightarrow> error + LendingState" where
  "withdrawCapital_fl = (\<lambda>fl now amount state.
      case currentUser state of
        None \<Rightarrow> Inr state
      | Some cu \<Rightarrow>
          if User.role cu \<noteq> Lender then Inr state
          else
            let totalCapital = foldl (\<lambda>sum cap. fl (sum + Capital.amount cap)) 0 (capital state);
                totalLoaned = foldl (\<lambda>sum loan. fl (sum + Loan.amount loan)) 0
                                (filter (\<lambda>loan. Loan.status loan = Approved) (loans state));
                availableCapital = fl (totalCapital - totalLoaned)
            in if amount > availableCapital then Inl InsufficientAvailableCapital
               else
                 let newCapital = \<lparr>Capital.id = toString now, lenderId = User.id cu,
                                   Capital.amount = - amount, addedAt = now\<rparr>
                 in Inr (state\<lparr>capital := capital state @ [newCapital]\<rparr>))"

definition requestLoan_fl :: "(rat \<Rightarrow> rat) \<Rightarrow> Date \<Rightarrow> rat \<Rightarrow> PaymentSchedule \<Rightarrow> LendingState \<Rightarrow> error + LendingState" where
  "requestLoan_fl = (\<lambda>fl now amount paymentSchedule state.
      case currentUser state of
        None \<Rightarrow> Inr state
      | Some cu \<Rightarrow>
          if User.role cu \<noteq> Borrower then Inr state
          else if amount > MAX_LOAN_AMOUNT then Inl MaximumLoanAmount
          else
            let hasActiveLoan = list_ex (\<lambda>loan.
                  Loan.borrowerId loan = User.id cu \<and>
                  (Loan.status loan = Pending \<or> Loan.status loan = Approved)) (loans state)
            in if hasActiveLoan then Inl ActiveLoanExists
               else
                 let interestRate = (if paymentSchedule = Weekly then fl WEEKLY_INTEREST_RATE
                                     else fl MONTHLY_INTEREST_RATE);
                     totalDue = fl (amount + fl (amount * interestRate));
                     newLoan = \<lparr>Loan.id = toString now, Loan.borrowerId = User.id cu,
                                borrowerName = User.name cu, Loan.amount = amount,
                                interestRate = interestRate, paymentSchedule = paymentSchedule,
                                status = Pending, requestedAt = now, approvedAt = None,
                                dueDate = None, totalDue = totalDue, principalPaid = 0,
                                interestPaid = 0, isOverdue = False,
                                overdueInterestApplied = False\<rparr>
                 in Inr (state\<lparr>loans := loans state @ [newLoan]\<rparr>))"

definition approveLoan_fl :: "(rat \<Rightarrow> rat) \<Rightarrow> Calendar \<Rightarrow> Date \<Rightarrow> string \<Rightarrow> bool \<Rightarrow> LendingState \<Rightarrow> error + LendingState" where
  "approveLoan_fl = (\<lambda>fl cal now loanId approve prevState.
      case currentUser prevState of
        None \<Rightarrow> Inr prevState
      | Some cu \<Rightarrow>
          if User.role cu \<noteq> Lender then Inr prevState
          else
            (case find (\<lambda>l. Loan.id l = loanId) (loans prevState) of
               None \<Rightarrow> Inr prevState
             | Some loan \<Rightarrow>
                 if approve then
                   let totalCapital = foldl (\<lambda>sum cap. fl (sum + Capital.amount cap)) 0
                                        (capital prevState);
                       totalLoaned = foldl (\<lambda>sum l. fl (sum + Loan.amount l)) 0
                                       (filter (\<lambda>l. Loan.status l = Approved) (loans prevState));
                       availableCapital = fl (totalCapital - totalLoaned)
                   in if Loan.amount loan > availableCapital then Inl InsufficientCapitalToApprove
                      else
                        let dueDate = (if paymentSchedule loan = Weekly then plus7Days cal now
                                       else plus1Month cal now)
                        in Inr (prevState\<lparr>loans := map (\<lambda>l.
                                  if Loan.id l = loanId
                                  then l\<lparr>status := Approved, approvedAt := Some now,
                                         dueDate := Some dueDate\<rparr>
                                  else l) (loans prevState)\<rparr>)
                 else
                   Inr (prevState\<lparr>loans := map (\<lambda>l.
                          if Loan.id l = loanId then l\<lparr>status := Rejected\<rparr> else l)
                          (loans prevState)\<rparr>)))"

definition recordPayment_fl :: "(rat \<Rightarrow> rat) \<Rightarrow> Calendar \<Rightarrow> Date \<Rightarrow> string \<Rightarrow> rat \<Rightarrow> PaymentMethod \<Rightarrow> LendingState \<Rightarrow> error + LendingState" where
  "recordPayment_fl = (\<lambda>fl cal now loanId amount method prevState.
      case currentUser prevState of
        None \<Rightarrow> Inr prevState
      | Some cu \<Rightarrow>
          if User.role cu \<noteq> Borrower then Inr prevState
          else
            (case find (\<lambda>l. Loan.id l = loanId) (loans prevState) of
               None \<Rightarrow> Inr prevState
             | Some loan \<Rightarrow>
                 if Loan.status loan \<noteq> Approved then Inr prevState
                 else
                   let remainingBalance =
                         fl (fl (totalDue loan - principalPaid loan) - interestPaid loan)
                   in if amount > remainingBalance then Inl PaymentExceedsBalance
                      else
                        let remainingInterest =
                              fl (fl (fl (Loan.amount loan * interestRate loan) - interestPaid loan) +
                                  (if overdueInterestApplied loan
                                   then fl (Loan.amount loan * interestRate loan) else 0));
                            interestAmount = min amount remainingInterest;
                            principalAmount = fl (amount - interestAmount);
                            newPayment = \<lparr>Payment.id = toString now, loanId = loanId,
                                           Payment.borrowerId = User.id cu,
                                           Payment.amount = amount, method' = method,
                                           paidAt = now, principalAmount = principalAmount,
                                           interestAmount = interestAmount\<rparr>;
                            updatedLoan = loan\<lparr>
                              principalPaid := fl (principalPaid loan + principalAmount),
                              interestPaid := fl (interestPaid loan + interestAmount)\<rparr>;
                            updatedLoan =
                              (if fl (principalPaid updatedLoan + interestPaid updatedLoan)
                                    < totalDue updatedLoan
                               then
                                 let newDueDate =
                                       (if paymentSchedule loan = Weekly then plus7Days cal now
                                        else plus1Month cal now)
                                 in updatedLoan\<lparr>dueDate := Some newDueDate, isOverdue := False,
                                                overdueInterestApplied := False\<rparr>
                               else updatedLoan)
                        in Inr (prevState\<lparr>loans := map (\<lambda>l.
                                  if Loan.id l = loanId then updatedLoan else l) (loans prevState),
                                  payments := payments prevState @ [newPayment]\<rparr>)))"

text \<open>The dashboard's figures in the same arithmetic.\<close>

definition totalCapital_fl :: "(rat \<Rightarrow> rat) \<Rightarrow> LendingState \<Rightarrow> rat" where
  "totalCapital_fl fl state = foldl (\<lambda>sum cap. fl (sum + Capital.amount cap)) 0 (capital state)"

definition totalLoaned_fl :: "(rat \<Rightarrow> rat) \<Rightarrow> LendingState \<Rightarrow> rat" where
  "totalLoaned_fl fl state =
     foldl (\<lambda>sum loan. fl (sum + Loan.amount loan)) 0
       (filter (\<lambda>loan. Loan.status loan = Approved) (loans state))"

definition availableCapital_fl :: "(rat \<Rightarrow> rat) \<Rightarrow> LendingState \<Rightarrow> rat" where
  "availableCapital_fl fl state = fl (totalCapital_fl fl state - totalLoaned_fl fl state)"

text \<open>
  The form handlers: \<^verbatim>\<open>parseFloat\<close> gives the double nearest to the decimal number typed
  into the field.
\<close>

definition handleDeposit_fl :: "(rat \<Rightarrow> rat) \<Rightarrow> Date \<Rightarrow> rat \<Rightarrow> LendingState \<Rightarrow> error + LendingState" where
  "handleDeposit_fl = (\<lambda>fl now depositAmount state.
      let amount = fl depositAmount
      in if amount \<le> 0 then Inl InvalidAmount else Inr (depositCapital now amount state))"

definition handleWithdraw_fl :: "(rat \<Rightarrow> rat) \<Rightarrow> Date \<Rightarrow> rat \<Rightarrow> LendingState \<Rightarrow> error + LendingState" where
  "handleWithdraw_fl = (\<lambda>fl now withdrawAmount state.
      let amount = fl withdrawAmount
      in if amount \<le> 0 then Inl InvalidAmount else withdrawCapital_fl fl now amount state)"

definition handleLoanRequest_fl :: "(rat \<Rightarrow> rat) \<Rightarrow> Date \<Rightarrow> rat \<Rightarrow> PaymentSchedule \<Rightarrow> LendingState \<Rightarrow> error + LendingState" where
  "handleLoanRequest_fl = (\<lambda>fl now loanAmount paymentSchedule state.
      let amount = fl loanAmount
      in if amount \<le> 0 then Inl InvalidAmount
         else if amount > 1000 then Inl MaximumLoanAmount
         else requestLoan_fl fl now amount paymentSchedule state)"

definition handlePayment_fl :: "(rat \<Rightarrow> rat) \<Rightarrow> Calendar \<Rightarrow> Date \<Rightarrow> string \<Rightarrow> rat \<Rightarrow> PaymentMethod \<Rightarrow> LendingState \<Rightarrow> error + LendingState" where
  "handlePayment_fl = (\<lambda>fl cal now loanId paymentAmount method state.
      let amount = fl paymentAmount
      in if amount \<le> 0 then Inl InvalidAmount
         else recordPayment_fl fl cal now loanId amount method state)"

fun step_fl :: "(rat \<Rightarrow> rat) \<Rightarrow> Calendar \<Rightarrow> Date \<Rightarrow> command \<Rightarrow> LendingState \<Rightarrow> error + LendingState" where
  "step_fl fl cal now (RegisterUser n r) s = registerUser now n r s"
| "step_fl fl cal now (SwitchUser u) s = Inr (switchUser u s)"
| "step_fl fl cal now (DepositCapital a) s = handleDeposit_fl fl now a s"
| "step_fl fl cal now (WithdrawCapital a) s = handleWithdraw_fl fl now a s"
| "step_fl fl cal now (RequestLoan a p) s = handleLoanRequest_fl fl now a p s"
| "step_fl fl cal now (DecideLoan l b) s = approveLoan_fl fl cal now l b s"
| "step_fl fl cal now (RecordPayment l a m) s = handlePayment_fl fl cal now l a m s"
| "step_fl fl cal now SystemReset s = Inr (systemReset s)"
| "step_fl fl cal now OverdueSweep s = Inr (updateOverdueLoans_fl fl now s)"

fun run_fl :: "(rat \<Rightarrow> rat) \<Rightarrow> Calendar \<Rightarrow> (Date \<times> command) list \<Rightarrow> LendingState \<Rightarrow> error + LendingState" where
  "run_fl fl cal [] s = Inr s"
| "run_fl fl cal ((now, c) # cs) s =
     (case step_fl fl cal now c s of Inl e \<Rightarrow> Inl e | Inr s' \<Rightarrow> run_fl fl cal cs s')"

inductive reachable_fl :: "(rat \<Rightarrow> rat) \<Rightarrow> Calendar \<Rightarrow> Date \<Rightarrow> LendingState \<Rightarrow> bool"
  for fl :: "rat \<Rightarrow> rat" and cal :: Calendar where
  reachable_fl_init: "reachable_fl fl cal 0 initialState"
| reachable_fl_step: "reachable_fl fl cal t s \<Longrightarrow> t < t' \<Longrightarrow> step_fl fl cal t' c s = Inr s' \<Longrightarrow> reachable_fl fl cal t' s'"

section \<open>The specification's available capital\<close>

text \<open>
  The derived value as the specification words it: the capital entries, less the
  outstanding principal (original amount minus cumulative principal paid) of every
  approved loan whose outstanding principal is greater than zero.
\<close>

definition spec_outstandingPrincipal :: "Loan \<Rightarrow> rat" where
  "spec_outstandingPrincipal loan = Loan.amount loan - principalPaid loan"

definition spec_AvailableCapital :: "LendingState \<Rightarrow> rat" where
  "spec_AvailableCapital state =
     sum_list (map Capital.amount (capital state)) -
     sum_list (map spec_outstandingPrincipal
       (filter (\<lambda>loan. Loan.status loan = Approved \<and> spec_outstandingPrincipal loan > 0)
          (loans state)))"

section \<open>A sample session\<close>

text \<open>
  The session of the specification's scenarios: Alice, the lender, deposits 500; Bob
  borrows 300 on the monthly schedule. The sample calendar counts a week as 604800000
  milliseconds and a month as thirty days.
\<close>

definition cal0 :: Calendar where
  "cal0 = \<lparr>plus7Days = (\<lambda>t. t + 604800000), plus1Month = (\<lambda>t. t + 2592000000)\<rparr>"

definition alice :: User where
  "alice = \<lparr>User.id = ''1'', User.name = ''Alice'', User.role = Lender, joinedAt = 1\<rparr>"

definition bob :: User where
  "bob = \<lparr>User.id = ''3'', User.name = ''Bob'', User.role = Borrower, joinedAt = 3\<rparr>"

definition deposit500 :: Capital where
  "deposit500 = \<lparr>Capital.id = ''2'', lenderId = ''1'', Capital.amount = 500, addedAt = 2\<rparr>"

definition loanRequested :: Loan where
  "loanRequested =
     \<lparr>Loan.id = ''4'', Loan.borrowerId = ''3'', borrowerName = ''Bob'', Loan.amount = 300,
      interestRate = 6 / 100, paymentSchedule = Monthly, status = Pending, requestedAt = 4,
      approvedAt = None, dueDate = None, totalDue = 318, principalPaid = 0,
      interestPaid = 0, isOverdue = False, overdueInterestApplied = False\<rparr>"

definition loanApproved :: Loan where
  "loanApproved = loanRequested\<lparr>status := Approved, approvedAt := Some 6,
                                 dueDate := Some 2592000006\<rparr>"

definition sampleLedger :: "User \<Rightarrow> Loan list \<Rightarrow> Payment list \<Rightarrow> LendingState" where
  "sampleLedger cu ls ps =
     \<lparr>users = [alice, bob], capital = [deposit500], loans = ls, payments = ps,
      currentUser = Some cu\<rparr>"

text \<open>The commands that open the session, up to Alice's approval of Bob's loan.\<close>

definition sessionApproved :: "(Date \<times> command) list" where
  "sessionApproved =
     [(1, RegisterUser ''Alice'' Lender), (2, DepositCapital 500),
      (3, RegisterUser ''Bob'' Borrower), (4, RequestLoan 300 Monthly),
      (5, SwitchUser ''1''), (6, DecideLoan ''4'' True)]"

text \<open>Bob's loan after a first payment of 150, after full repayment, and when rejected.\<close>

definition loanPartPaid :: Loan where
  "loanPartPaid = loanApproved\<lparr>principalPaid := 132, interestPaid := 18,
                                dueDate := Some 2592000008\<rparr>"

definition payment150 :: Payment where
  "payment150 =
     \<lparr>Payment.id = ''8'', loanId = ''4'', Payment.borrowerId = ''3'', Payment.amount = 150,
      method' = Cash, paidAt = 8, principalAmount = 132, interestAmount = 18\<rparr>"

definition loanRepaid :: Loan where
  "loanRepaid = loanApproved\<lparr>principalPaid := 300, interestPaid := 18\<rparr>"

definition payment318 :: Payment where
  "payment318 =
     \<lparr>Payment.id = ''8'', loanId = ''4'', Payment.borrowerId = ''3'', Payment.amount = 318,
      method' = Cash, paidAt = 8, principalAmount = 300, interestAmount = 18\<rparr>"

definition loanRejected :: Loan where
  "loanRejected = loanRequested\<lparr>status := Rejected\<rparr>"

text \<open>
  Bob's approved loan left unpaid until the sweep finds it overdue (318 due, bumped by
  318 * 6 / 100 = 19.08), and the payment of 37 that follows.
\<close>

definition loanBumped :: Loan where
  "loanBumped = loanApproved\<lparr>totalDue := 33708 / 100, isOverdue := True,
                              overdueInterestApplied := True\<rparr>"

definition payment37 :: Payment where
  "payment37 =
     \<lparr>Payment.id = ''2592000009'', loanId = ''4'', Payment.borrowerId = ''3'',
      Payment.amount = 37, method' = Cash, paidAt = 2592000009, principalAmount = 1,
      interestAmount = 36\<rparr>"

text \<open>
  Sessions in double arithmetic. The opening of the session with a deposit of \<open>d\<close> and
  a monthly loan of \<open>a\<close>; Bob's loan of 1 when approved and after a payment of 0.57; his
  loan of 11 when approved and after payments of 0.20 and 11.46; and the ledger after
  a deposit of 20000000000000000, the approval of the loan of 1 and the withdrawal of
  20000000000000000.
\<close>

definition sessionOpen :: "rat \<Rightarrow> rat \<Rightarrow> (Date \<times> command) list" where
  "sessionOpen d a =
     [(1, RegisterUser ''Alice'' Lender), (2, DepositCapital d),
      (3, RegisterUser ''Bob'' Borrower), (4, RequestLoan a Monthly),
      (5, SwitchUser ''1''), (6, DecideLoan ''4'' True)]"

definition loanOne :: Loan where
  "loanOne = loanApproved\<lparr>Loan.amount := 1, interestRate := round64 (6 / 100),
                           totalDue := round64 (106 / 100)\<rparr>"

definition loanOnePaid :: Loan where
  "loanOnePaid = loanOne\<lparr>principalPaid := round64 (51 / 100),
                          interestPaid := round64 (6 / 100), dueDate := Some 2592000008\<rparr>"

definition payment057 :: Payment where
  "payment057 =
     \<lparr>Payment.id = ''8'', loanId = ''4'', Payment.borrowerId = ''3'',
      Payment.amount = round64 (57 / 100), method' = Cash, paidAt = 8,
      principalAmount = round64 (51 / 100), interestAmount = round64 (6 / 100)\<rparr>"

definition loanEleven :: Loan where
  "loanEleven = loanApproved\<lparr>Loan.amount := 11, interestRate := round64 (6 / 100),
                              totalDue := round64 (1166 / 100)\<rparr>"

definition loanElevenPaid :: Loan where
  "loanElevenPaid = loanEleven\<lparr>principalPaid := 11 + 1 / 2 ^ 49,
                                interestPaid := 2972375754064527 / 2 ^ 52,
                                dueDate := Some 2592000008\<rparr>"

definition payment020 :: Payment where
  "payment020 =
     \<lparr>Payment.id = ''8'', loanId = ''4'', Payment.borrowerId = ''3'',
      Payment.amount = round64 (20 / 100), method' = Cash, paidAt = 8,
      principalAmount = 0, interestAmount = round64 (20 / 100)\<rparr>"

definition payment1146 :: Payment where
  "payment1146 =
     \<lparr>Payment.id = ''9'', loanId = ''4'', Payment.borrowerId = ''3'',
      Payment.amount = round64 (1146 / 100), method' = Cash, paidAt = 9,
      principalAmount = 11 + 1 / 2 ^ 49, interestAmount = 8286623314361711 / 2 ^ 54\<rparr>"

definition ledgerOverdrawn :: LendingState where
  "ledgerOverdrawn =
     \<lparr>users = [alice, bob],
      capital =
        [\<lparr>Capital.id = ''2'', lenderId = ''1'', Capital.amount = 20000000000000000,
          addedAt = 2\<rparr>,
         \<lparr>Capital.id = ''7'', lenderId = ''1'', Capital.amount = - 20000000000000000,
          addedAt = 7\<rparr>],
      loans = [loanOne], payments = [], currentUser = Some alice\<rparr>"

section \<open>Invariants of the ledger\<close>

text \<open>A loan on which no more has been paid than is due.\<close>

definition paidWithinDue :: "Loan \<Rightarrow> bool" where
  "paidWithinDue loan \<longleftrightarrow> principalPaid loan + interestPaid loan \<le> totalDue loan"

text \<open>The amount a loan takes out of the available capital.\<close>

definition deployed :: "Loan \<Rightarrow> rat" where
  "deployed loan = (if Loan.status loan = Approved then Loan.amount loan else 0)"

text \<open>
  What holds of the ledger after a command issued at time \<open>t\<close>: the loans have distinct
  identifiers, each the reading of the clock at some time up to \<open>t\<close>, and positive
  amounts, and the available capital is not negative.
\<close>

definition ledgerInv :: "Date \<Rightarrow> LendingState \<Rightarrow> bool" where
  "ledgerInv t s \<longleftrightarrow>
     distinct (map Loan.id (loans s)) \<and>
     (\<forall>i \<in> set (map Loan.id (loans s)). \<exists>t' \<le> t. i = toString t') \<and>
     (\<forall>a \<in> set (map Loan.amount (loans s)). 0 < a) \<and>
     0 \<le> availableCapital s"

text \<open>Commands listed with strictly increasing clock readings, all later than \<open>t\<close>.\<close>

fun increasing :: "Date \<Rightarrow> (Date \<times> command) list \<Rightarrow> bool" where
  "increasing t [] = True"
| "increasing t ((t', c) # cs) = (t < t' \<and> increasing t' cs)"

fun lastTime :: "Date \<Rightarrow> (Date \<times> command) list \<Rightarrow> Date" where
  "lastTime t [] = t"
| "lastTime t ((t', c) # cs) = lastTime t' cs"

section \<open>Identifiers\<close>

lemma digit_inj: "a < 10 \<Longrightarrow> b < 10 \<Longrightarrow> digit a = digit b \<Longrightarrow> a = b"
  unfolding digit_def
  by (simp add: less_Suc_eq numeral_nat nth_Cons' split: if_splits)

lemma toString_digit: "n < 10 \<Longrightarrow> toString n = [digit n]"
  by (simp add: toString.simps)

lemma toString_not_Nil: "toString n \<noteq> []"
  by (subst toString.simps) simp

lemma toString_inj: "toString m = toString n \<Longrightarrow> m = n"
proof (induction m arbitrary: n rule: toString.induct)
  case (1 m)
  show ?case
  proof (cases "m < 10")
    case True
    then have m: "toString m = [digit m]" by (simp add: toString.simps)
    show ?thesis
    proof (cases "n < 10")
      case n: True
      then have "toString n = [digit n]" by (simp add: toString.simps)
      with m "1.prems" have "digit m = digit n" by simp
      with True n show ?thesis by (rule digit_inj)
    next
      case False
      then have "toString n = toString (n div 10) @ [digit (n mod 10)]"
        by (simp add: toString.simps)
      with m "1.prems" have "toString (n div 10) = []" by simp
      then show ?thesis by (simp add: toString_not_Nil)
    qed
  next
    case False
    then have m: "toString m = toString (m div 10) @ [digit (m mod 10)]"
      by (simp add: toString.simps)
    show ?thesis
    proof (cases "n < 10")
      case True
      then have "toString n = [digit n]" by (simp add: toString.simps)
      with m "1.prems" have "toString (m div 10) = []" by simp
      then show ?thesis by (simp add: toString_not_Nil)
    next
      case n: False
      then have "toString n = toString (n div 10) @ [digit (n mod 10)]"
        by (simp add: toString.simps)
      with m "1.prems" have eq: "toString (m div 10) = toString (n div 10)"
        and d: "digit (m mod 10) = digit (n mod 10)" by simp_all
      from "1.IH" [OF False eq] have "m div 10 = n div 10" .
      moreover from d have "m mod 10 = n mod 10" by (intro digit_inj) simp_all
      ultimately show ?thesis by (metis div_mult_mod_eq)
    qed
  qed
qed

section \<open>Available capital\<close>

lemma foldl_add: "foldl (\<lambda>sum x. sum + f x) a xs = (a::rat) + sum_list (map f xs)"
  by (induction xs arbitrary: a) simp_all

lemma availableCapital_sum:
  "availableCapital s =
     sum_list (map Capital.amount (capital s)) -
     sum_list (map Loan.amount (filter (\<lambda>l. Loan.status l = Approved) (loans s)))"
  by (simp add: availableCapital_def totalCapital_def totalLoaned_def foldl_add)

text \<open>
  \<open>withdrawCapital\<close> and \<open>approveLoan\<close> compute the dashboard's figure again and compare
  with it.
\<close>

lemma withdrawCapital_available:
  "withdrawCapital now a s =
     (case currentUser s of
        None \<Rightarrow> Inr s
      | Some cu \<Rightarrow>
          if User.role cu \<noteq> Lender then Inr s
          else if a > availableCapital s then Inl InsufficientAvailableCapital
          else Inr (s\<lparr>capital := capital s @
                 [\<lparr>Capital.id = toString now, lenderId = User.id cu, Capital.amount = - a,
                   addedAt = now\<rparr>]\<rparr>))"
  by (simp add: withdrawCapital_def availableCapital_def totalCapital_def totalLoaned_def Let_def
      split: option.splits)

lemma approveLoan_available:
  "approveLoan cal now lid b s =
     (case currentUser s of
        None \<Rightarrow> Inr s
      | Some cu \<Rightarrow>
          if User.role cu \<noteq> Lender then Inr s
          else
            (case find (\<lambda>l. Loan.id l = lid) (loans s) of
               None \<Rightarrow> Inr s
             | Some loan \<Rightarrow>
                 if b then
                   if Loan.amount loan > availableCapital s then Inl InsufficientCapitalToApprove
                   else Inr (s\<lparr>loans := map (\<lambda>l.
                          if Loan.id l = lid
                          then l\<lparr>status := Approved, approvedAt := Some now,
                                 dueDate := Some (if paymentSchedule loan = Weekly
                                                  then plus7Days cal now else plus1Month cal now)\<rparr>
                          else l) (loans s)\<rparr>)
                 else Inr (s\<lparr>loans := map (\<lambda>l.
                        if Loan.id l = lid then l\<lparr>status := Rejected\<rparr> else l) (loans s)\<rparr>)))"
  by (simp add: approveLoan_def availableCapital_def totalCapital_def totalLoaned_def Let_def
      split: option.splits)

section \<open>The sample session runs\<close>

lemmas sample_defs = sampleLedger_def alice_def bob_def deposit500_def loanRequested_def
  loanApproved_def cal0_def

lemmas op_defs = registerUser_def handleDeposit_def depositCapital_def handleWithdraw_def
  withdrawCapital_def handleLoanRequest_def requestLoan_def handleLoanAction_def
  approveLoan_def handlePayment_def recordPayment_def switchUser_def systemReset_def
  updateOverdueLoans_def updateOverdueLoan_def MAX_BORROWERS_def MAX_LOAN_AMOUNT_def
  WEEKLY_INTEREST_RATE_def MONTHLY_INTEREST_RATE_def Let_def toString_digit digit_def
  initialState_def

lemma run_append:
  "run cal (cs @ ds) s = (case run cal cs s of Inl e \<Rightarrow> Inl e | Inr s' \<Rightarrow> run cal ds s')"
  by (induction cs arbitrary: s) (auto split: sum.splits)

lemma reachable_run:
  "reachable cal t s \<Longrightarrow> increasing t cs \<Longrightarrow> run cal cs s = Inr s' \<Longrightarrow>
     reachable cal (lastTime t cs) s'"
proof (induction cs arbitrary: t s)
  case Nil
  then show ?case by simp
next
  case (Cons tc cs)
  obtain t' c where tc: "tc = (t', c)" by (cases tc)
  from Cons.prems(3) tc obtain s1 where s1: "step cal t' c s = Inr s1" and r: "run cal cs s1 = Inr s'"
    by (auto split: sum.splits)
  from Cons.prems(2) tc have lt: "t < t'" and inc: "increasing t' cs" by simp_all
  from Cons.prems(1) lt s1 have "reachable cal t' s1" by (rule reachable_step)
  from Cons.IH [OF this inc r] tc show ?case by simp
qed

lemma run_sessionApproved:
  "run cal0 sessionApproved initialState = Inr (sampleLedger alice [loanApproved] [])"
  by (simp add: sessionApproved_def sample_defs op_defs)

lemma run_sessionPartPaid:
  "run cal0 (sessionApproved @
      [(7, SwitchUser ''3''), (8, RecordPayment ''4'' 150 Cash), (9, SwitchUser ''1'')])
     initialState = Inr (sampleLedger alice [loanPartPaid] [payment150])"
  by (simp add: run_append run_sessionApproved)
     (simp add: sample_defs op_defs loanPartPaid_def payment150_def)

lemma run_sessionRepaid:
  "run cal0 (sessionApproved @ [(7, SwitchUser ''3''), (8, RecordPayment ''4'' 318 Cash)])
     initialState = Inr (sampleLedger bob [loanRepaid] [payment318])"
  by (simp add: run_append run_sessionApproved)
     (simp add: sample_defs op_defs loanRepaid_def payment318_def)

lemma run_sessionRejected:
  "run cal0
     [(1, RegisterUser ''Alice'' Lender), (2, DepositCapital 500),
      (3, RegisterUser ''Bob'' Borrower), (4, RequestLoan 300 Monthly),
      (5, SwitchUser ''1''), (6, DecideLoan ''4'' False)]
     initialState = Inr (sampleLedger alice [loanRejected] [])"
  by (simp add: sample_defs op_defs loanRejected_def)

lemma toString_2592000009: "toString 2592000009 = ''2592000009''"
  by (simp add: toString.simps digit_def)

lemma run_sessionBumped:
  "run cal0 (sessionApproved @ [(2592000007, OverdueSweep), (2592000008, SwitchUser ''3'')])
     initialState = Inr (sampleLedger bob [loanBumped] [])"
  by (simp add: run_append run_sessionApproved)
     (simp add: sample_defs op_defs loanBumped_def)

section \<open>Registration\<close>

text \<open>
  C10. A successful \<open>registerUser\<close> appends the new user to the registry and makes that
  same user the current user of the session; nothing else changes.
\<close>

theorem registerUser_sets_currentUser:
  "registerUser now nm r s = Inr s' \<Longrightarrow>
     s' = s\<lparr>users := users s @
              [\<lparr>User.id = toString now, User.name = nm, User.role = r, joinedAt = now\<rparr>],
            currentUser :=
              Some \<lparr>User.id = toString now, User.name = nm, User.role = r, joinedAt = now\<rparr>\<rparr>"
  by (auto simp: registerUser_def Let_def split: if_splits)

text \<open>
  C10, at the sample session: while Alice is the current user, registering Bob succeeds
  and leaves Bob as the current user.
\<close>

theorem registerUser_sets_currentUser_witness:
  "registerUser 3 ''Bob'' Borrower
     \<lparr>users = [alice], capital = [deposit500], loans = [], payments = [],
      currentUser = Some alice\<rparr>
   = Inr \<lparr>users = [alice, bob], capital = [deposit500], loans = [], payments = [],
          currentUser = Some bob\<rparr>"
proof -
  have "\<exists>s'. registerUser 3 ''Bob'' Borrower
          \<lparr>users = [alice], capital = [deposit500], loans = [], payments = [],
           currentUser = Some alice\<rparr> = Inr s'"
    by (simp add: registerUser_def alice_def MAX_BORROWERS_def Let_def)
  then obtain s' where s': "registerUser 3 ''Bob'' Borrower
          \<lparr>users = [alice], capital = [deposit500], loans = [], payments = [],
           currentUser = Some alice\<rparr> = Inr s'" ..
  from registerUser_sets_currentUser [OF s'] s' show ?thesis
    by (simp add: bob_def toString_digit digit_def)
qed

section \<open>System reset\<close>

text \<open>
  C2, as stated, fails: with Alice and Bob registered, Alice's reset leaves a registry
  that holds Alice alone; Bob is gone.
\<close>

theorem systemReset_counterexample:
  "users (sampleLedger alice [loanApproved] []) = [alice, bob] \<and>
   users (systemReset (sampleLedger alice [loanApproved] [])) = [alice] \<and>
   bob \<notin> set (users (systemReset (sampleLedger alice [loanApproved] [])))"
  by (simp add: systemReset_def sampleLedger_def alice_def bob_def)

text \<open>
  C2, amended. \<open>systemReset\<close>, invoked by the lender, discards all capital entries,
  loans and payments, and of the registry it keeps the acting user only, who stays the
  current user.
\<close>

theorem systemReset_keeps_acting_lender:
  "currentUser s = Some cu \<Longrightarrow> User.role cu = Lender \<Longrightarrow>
     systemReset s =
       \<lparr>users = [cu], capital = [], loans = [], payments = [], currentUser = Some cu\<rparr>"
  by (simp add: systemReset_def)

text \<open>C2, amended, at the sample session after the approval.\<close>

theorem systemReset_keeps_acting_lender_witness:
  "systemReset (sampleLedger alice [loanApproved] []) =
     \<lparr>users = [alice], capital = [], loans = [], payments = [], currentUser = Some alice\<rparr>"
  using systemReset_keeps_acting_lender [of "sampleLedger alice [loanApproved] []" alice]
  by (simp add: sampleLedger_def alice_def)

section \<open>The capital that withdrawals and approvals check\<close>

text \<open>
  C1, as stated, fails. After Bob has paid 150 on his loan of 300 (132 of it principal),
  the specification's figure is 500 - (300 - 132) = 332, the code's figure is
  500 - 300 = 200, and a withdrawal of 250 is refused.
\<close>

theorem availableCapital_counterexample:
  "availableCapital (sampleLedger alice [loanPartPaid] [payment150]) = 200 \<and>
   spec_AvailableCapital (sampleLedger alice [loanPartPaid] [payment150]) = 332 \<and>
   withdrawCapital 10 250 (sampleLedger alice [loanPartPaid] [payment150])
     = Inl InsufficientAvailableCapital"
  by (simp add: availableCapital_sum spec_AvailableCapital_def spec_outstandingPrincipal_def
      withdrawCapital_available sample_defs loanPartPaid_def)

text \<open>
  C1, amended. The available capital is the sum of all capital entries minus the sum of
  the original amounts of all loans whose status is approved, whatever has been repaid
  on them; for the lender, a withdrawal fails exactly when it exceeds this value, and
  the approval of a loan fails exactly when the loan's amount exceeds it.
\<close>

theorem availableCapital_checked:
  "currentUser s = Some cu \<Longrightarrow> User.role cu = Lender \<Longrightarrow>
     availableCapital s =
       sum_list (map Capital.amount (capital s)) -
       sum_list (map Loan.amount (filter (\<lambda>l. Loan.status l = Approved) (loans s))) \<and>
     (withdrawCapital now a s = Inl InsufficientAvailableCapital \<longleftrightarrow> a > availableCapital s) \<and>
     (find (\<lambda>l. Loan.id l = lid) (loans s) = Some loan \<longrightarrow>
        (approveLoan cal now lid True s = Inl InsufficientCapitalToApprove
           \<longleftrightarrow> Loan.amount loan > availableCapital s))"
  by (simp add: withdrawCapital_available approveLoan_available availableCapital_sum)

text \<open>
  C1, amended, at the sample session after the payment of 150: the value is 200, a
  withdrawal of 200 is not refused, one of 201 is, and so is a second approval of the
  loan of 300.
\<close>

theorem availableCapital_checked_witness:
  "availableCapital (sampleLedger alice [loanPartPaid] [payment150]) = 500 - 300 \<and>
   withdrawCapital 10 200 (sampleLedger alice [loanPartPaid] [payment150])
     \<noteq> Inl InsufficientAvailableCapital \<and>
   withdrawCapital 10 201 (sampleLedger alice [loanPartPaid] [payment150])
     = Inl InsufficientAvailableCapital \<and>
   approveLoan cal0 10 ''4'' True (sampleLedger alice [loanPartPaid] [payment150])
     = Inl InsufficientCapitalToApprove"
proof -
  have cu: "currentUser (sampleLedger alice [loanPartPaid] [payment150]) = Some alice"
    and r: "User.role alice = Lender"
    by (simp_all add: sampleLedger_def alice_def)
  have f: "find (\<lambda>l. Loan.id l = ''4'') (loans (sampleLedger alice [loanPartPaid] [payment150]))
             = Some loanPartPaid"
    by (simp add: sample_defs loanPartPaid_def)
  have v: "sum_list (map Capital.amount (capital (sampleLedger alice [loanPartPaid] [payment150]))) -
           sum_list (map Loan.amount (filter (\<lambda>l. Loan.status l = Approved)
             (loans (sampleLedger alice [loanPartPaid] [payment150])))) = 200"
    by (simp add: sample_defs loanPartPaid_def)
  have a: "Loan.amount loanPartPaid = 300"
    by (simp add: sample_defs loanPartPaid_def)
  from availableCapital_checked [OF cu r, of 10 200 "''4''" loanPartPaid cal0]
       availableCapital_checked [OF cu r, of 10 201 "''4''" loanPartPaid cal0] f v a
  show ?thesis by simp
qed

section \<open>The loan decision\<close>

text \<open>
  C3, as stated, fails: a rejected loan is approved by a later decision, and an approved
  loan is rejected by one; neither call fails.
\<close>

theorem approveLoan_counterexample:
  "approveLoan cal0 7 ''4'' True (sampleLedger alice [loanRejected] []) =
     Inr (sampleLedger alice
       [loanRejected\<lparr>status := Approved, approvedAt := Some 7,
                      dueDate := Some 2592000007\<rparr>] []) \<and>
   approveLoan cal0 7 ''4'' False (sampleLedger alice [loanApproved] []) =
     Inr (sampleLedger alice [loanApproved\<lparr>status := Rejected\<rparr>] [])"
  by (simp add: sample_defs op_defs loanRejected_def)

lemma decisionButtons_iff:
  "(lid, b) \<in> set (decisionButtons s) \<longleftrightarrow>
     (\<exists>l \<in> set (loans s). Loan.id l = lid \<and> Loan.status l = Pending \<and>
        (b \<longrightarrow> Loan.amount l \<le> availableCapital s))"
  by (auto simp: decisionButtons_def pendingLoans_def)

text \<open>
  C3, amended. \<open>approveLoan\<close> does not look at the loan's status and has no error for a
  loan already decided. For the lender and a loan of any status: a rejection succeeds
  and sets the status of every loan with that identifier to rejected, nothing else
  changing; an approval fails for insufficient capital when the loan's amount exceeds
  the available capital, and otherwise succeeds and sets, on every loan with that
  identifier, the status to approved, \<open>approvedAt\<close> to the time of the call and \<open>dueDate\<close> to
  one schedule period later, nothing else changing. The restriction to pending loans is
  the dashboard's: it offers a decision on a loan exactly when the loan is pending (and
  the approval only when the amount is within the available capital).
\<close>

theorem approveLoan_decides_any_status:
  "currentUser s = Some cu \<Longrightarrow> User.role cu = Lender \<Longrightarrow>
   find (\<lambda>l. Loan.id l = lid) (loans s) = Some loan \<Longrightarrow>
     approveLoan cal now lid False s =
       Inr (s\<lparr>loans := map (\<lambda>l. if Loan.id l = lid then l\<lparr>status := Rejected\<rparr> else l)
                          (loans s)\<rparr>) \<and>
     (Loan.amount loan \<le> availableCapital s \<longrightarrow>
        approveLoan cal now lid True s =
          Inr (s\<lparr>loans := map (\<lambda>l.
                 if Loan.id l = lid
                 then l\<lparr>status := Approved, approvedAt := Some now,
                        dueDate := Some (if paymentSchedule loan = Weekly
                                         then plus7Days cal now else plus1Month cal now)\<rparr>
                 else l) (loans s)\<rparr>)) \<and>
     (Loan.amount loan > availableCapital s \<longrightarrow>
        approveLoan cal now lid True s = Inl InsufficientCapitalToApprove) \<and>
     (\<forall>lid' b. (lid', b) \<in> set (decisionButtons s) \<longleftrightarrow>
        (\<exists>l \<in> set (loans s). Loan.id l = lid' \<and> Loan.status l = Pending \<and>
           (b \<longrightarrow> Loan.amount l \<le> availableCapital s)))"
  by (simp add: approveLoan_available decisionButtons_iff)

text \<open>
  C3, amended, at the sample session: the rejected loan of 300 becomes approved, with
  the time of the call and a due date one month later; rejecting it again changes
  nothing; the dashboard offers no decision on it, and offers both on the pending loan.
\<close>

theorem approveLoan_decides_any_status_witness:
  "approveLoan cal0 7 ''4'' True (sampleLedger alice [loanRejected] []) =
     Inr (sampleLedger alice
       [loanRejected\<lparr>status := Approved, approvedAt := Some 7,
                      dueDate := Some 2592000007\<rparr>] []) \<and>
   approveLoan cal0 7 ''4'' False (sampleLedger alice [loanRejected] []) =
     Inr (sampleLedger alice [loanRejected] []) \<and>
   decisionButtons (sampleLedger alice [loanRejected] []) = [] \<and>
   decisionButtons (sampleLedger alice [loanRequested] []) = [(''4'', True), (''4'', False)]"
proof -
  have cu: "currentUser (sampleLedger alice [loanRejected] []) = Some alice"
    and r: "User.role alice = Lender"
    by (simp_all add: sampleLedger_def alice_def)
  have f: "find (\<lambda>l. Loan.id l = ''4'') (loans (sampleLedger alice [loanRejected] []))
             = Some loanRejected"
    by (simp add: sample_defs loanRejected_def)
  have a: "Loan.amount loanRejected \<le> availableCapital (sampleLedger alice [loanRejected] [])"
    by (simp add: availableCapital_sum sample_defs loanRejected_def)
  have b: "decisionButtons (sampleLedger alice [loanRejected] []) = []"
    "decisionButtons (sampleLedger alice [loanRequested] []) = [(''4'', True), (''4'', False)]"
    by (simp_all add: decisionButtons_def pendingLoans_def availableCapital_sum sample_defs
        loanRejected_def)
  from approveLoan_decides_any_status [OF cu r f, of cal0 7] a b
  show ?thesis by (simp add: sample_defs loanRejected_def)
qed

section \<open>The loan request\<close>

text \<open>
  C5, as stated, fails: Bob's loan is fully paid (300 + 18 = 318), and his next request
  is refused.
\<close>

theorem requestLoan_counterexample:
  "principalPaid loanRepaid + interestPaid loanRepaid = totalDue loanRepaid \<and>
   requestLoan 9 100 Weekly (sampleLedger bob [loanRepaid] [payment318]) = Inl ActiveLoanExists"
  by (simp add: sample_defs op_defs loanRepaid_def)

text \<open>
  C5, amended. For a borrower asking for no more than the maximum, the request is
  refused as a duplicate exactly when one of the borrower's loans has the status pending
  or approved, whatever has been paid on it; when all of the borrower's loans are
  rejected (or there is none) the request succeeds.
\<close>

theorem requestLoan_active_by_status:
  "currentUser s = Some cu \<Longrightarrow> User.role cu = Borrower \<Longrightarrow> a \<le> MAX_LOAN_AMOUNT \<Longrightarrow>
     (requestLoan now a p s = Inl ActiveLoanExists \<longleftrightarrow>
        (\<exists>l \<in> set (loans s). Loan.borrowerId l = User.id cu \<and>
           (Loan.status l = Pending \<or> Loan.status l = Approved))) \<and>
     ((\<forall>l \<in> set (loans s). Loan.borrowerId l = User.id cu \<longrightarrow> Loan.status l = Rejected) \<longrightarrow>
        (\<exists>s'. requestLoan now a p s = Inr s'))"
  by (auto simp: requestLoan_def Let_def list_ex_iff)

text \<open>
  C5, amended, at the sample session: with his loan repaid but still approved Bob is
  refused; with his loan rejected he is not.
\<close>

theorem requestLoan_active_by_status_witness:
  "requestLoan 9 100 Weekly (sampleLedger bob [loanRepaid] [payment318]) = Inl ActiveLoanExists \<and>
   (\<exists>s'. requestLoan 9 100 Weekly (sampleLedger bob [loanRejected] []) = Inr s')"
proof -
  have r: "User.role bob = Borrower" and a: "100 \<le> MAX_LOAN_AMOUNT"
    by (simp_all add: bob_def MAX_LOAN_AMOUNT_def)
  have c1: "currentUser (sampleLedger bob [loanRepaid] [payment318]) = Some bob"
    and c2: "currentUser (sampleLedger bob [loanRejected] []) = Some bob"
    by (simp_all add: sampleLedger_def)
  from requestLoan_active_by_status [OF c1 r a, of 9 Weekly]
       requestLoan_active_by_status [OF c2 r a, of 9 Weekly]
  show ?thesis by (simp add: sample_defs loanRepaid_def loanRejected_def)
qed

section \<open>The interest share of a payment after an overdue bump\<close>

text \<open>
  C4, at the input where the code departs from it. The sweep adds 19.08, the rate on
  the remaining balance of 318, to the amount due. The payment of 37 that follows is
  split by \<open>recordPayment\<close> into 36 of interest and 1 of principal: it counts the bump
  as the rate on the original amount, 18, and so takes the outstanding interest to be
  18 + 18 = 36, where 18 + 19.08 = 37.08 is owed and the whole payment is interest.
\<close>

theorem recordPayment_overdue_interest:
  "updateOverdueLoan 2592000007 loanApproved = loanBumped \<and>
   totalDue loanBumped - totalDue loanApproved = 1908 / 100 \<and>
   recordPayment cal0 2592000009 ''4'' 37 Cash (sampleLedger bob [loanBumped] []) =
     Inr (sampleLedger bob
       [loanBumped\<lparr>principalPaid := 1, interestPaid := 36, dueDate := Some 5184000009,
                   isOverdue := False, overdueInterestApplied := False\<rparr>] [payment37])"
  by (simp add: sample_defs op_defs loanBumped_def payment37_def toString_2592000009)

section \<open>The overdue sweep\<close>

lemma updateOverdueLoan_settled:
  "isOverdue l \<Longrightarrow> updateOverdueLoan now l = l"
  by (simp add: updateOverdueLoan_def Let_def)

lemma updateOverdueLoan_bump_needs_clear_flags:
  "totalDue (updateOverdueLoan now l) \<noteq> totalDue l \<Longrightarrow>
     \<not> isOverdue l \<and> \<not> overdueInterestApplied l"
  by (auto simp: updateOverdueLoan_def Let_def split: if_splits)

lemma updateOverdueLoan_twice:
  "now \<le> now' \<Longrightarrow> updateOverdueLoan now' (updateOverdueLoan now l) = updateOverdueLoan now' l"
  by (auto simp: updateOverdueLoan_def Let_def split: option.splits)

lemma updateOverdueLoans_twice:
  "now \<le> now' \<Longrightarrow>
     updateOverdueLoans now' (updateOverdueLoans now s) = updateOverdueLoans now' s"
  by (simp add: updateOverdueLoans_def updateOverdueLoan_twice)

text \<open>
  No command but a payment touches the flags or the amount due of a loan that is
  overdue with its bump applied.
\<close>

lemma step_keeps_bumped:
  assumes "step cal t c s = Inr s'" and "\<forall>lid a m. c \<noteq> RecordPayment lid a m"
    and "i < length (loans s')" and "i < length (loans s)"
    and "isOverdue (loans s ! i)" and "overdueInterestApplied (loans s ! i)"
  shows "isOverdue (loans s' ! i) \<and> overdueInterestApplied (loans s' ! i) \<and>
         totalDue (loans s' ! i) = totalDue (loans s ! i)"
proof (cases c)
  case (RegisterUser n r)
  with assms show ?thesis by (auto simp: registerUser_def Let_def split: if_splits)
next
  case (SwitchUser u)
  with assms show ?thesis by (auto simp: switchUser_def split: option.splits)
next
  case (DepositCapital a)
  with assms show ?thesis
    by (auto simp: handleDeposit_def depositCapital_def Let_def split: if_splits option.splits)
next
  case (WithdrawCapital a)
  with assms show ?thesis
    by (auto simp: handleWithdraw_def withdrawCapital_available split: if_splits option.splits)
next
  case (RequestLoan a p)
  with assms show ?thesis
    by (auto simp: handleLoanRequest_def requestLoan_def Let_def nth_append
        split: if_splits option.splits)
next
  case (DecideLoan l b)
  with assms show ?thesis
    by (auto simp: handleLoanAction_def approveLoan_available split: if_splits option.splits)
next
  case (RecordPayment l a m)
  with assms show ?thesis by simp
next
  case SystemReset
  with assms show ?thesis by (auto simp: systemReset_def split: if_splits option.splits)
next
  case OverdueSweep
  with assms show ?thesis by (auto simp: updateOverdueLoans_def updateOverdueLoan_settled)
qed

text \<open>
  C7. A sweep leaves a loan that is overdue with its bump applied exactly as it is, the
  amount due included; a sweep raises the amount due of a loan only if both of its
  overdue flags are clear; a sweep followed by a sweep at the same or a later time is
  that later sweep alone; and whatever command other than a payment runs, a loan that
  is overdue with its bump applied stays so, with the same amount due, for as long as
  it is in the ledger. So the bump comes again only after a payment has cleared the
  flags.
\<close>

theorem overdue_bump_once:
  "(isOverdue l \<and> overdueInterestApplied l \<longrightarrow> updateOverdueLoan now l = l) \<and>
   (totalDue (updateOverdueLoan now l) \<noteq> totalDue l \<longrightarrow>
      \<not> isOverdue l \<and> \<not> overdueInterestApplied l) \<and>
   (now \<le> now' \<longrightarrow>
      updateOverdueLoans now' (updateOverdueLoans now s) = updateOverdueLoans now' s) \<and>
   (step cal t c s = Inr s' \<and> (\<forall>lid a m. c \<noteq> RecordPayment lid a m) \<and>
    i < length (loans s') \<and> i < length (loans s) \<and>
    isOverdue (loans s ! i) \<and> overdueInterestApplied (loans s ! i) \<longrightarrow>
      isOverdue (loans s' ! i) \<and> overdueInterestApplied (loans s' ! i) \<and>
      totalDue (loans s' ! i) = totalDue (loans s ! i))"
proof (intro conjI impI)
  assume "isOverdue l \<and> overdueInterestApplied l"
  then show "updateOverdueLoan now l = l" by (simp add: updateOverdueLoan_settled)
next
  assume "totalDue (updateOverdueLoan now l) \<noteq> totalDue l"
  then have "\<not> isOverdue l \<and> \<not> overdueInterestApplied l"
    by (rule updateOverdueLoan_bump_needs_clear_flags)
  then show "\<not> isOverdue l" and "\<not> overdueInterestApplied l" by simp_all
next
  assume "now \<le> now'"
  then show "updateOverdueLoans now' (updateOverdueLoans now s) = updateOverdueLoans now' s"
    by (rule updateOverdueLoans_twice)
next
  assume a: "step cal t c s = Inr s' \<and> (\<forall>lid a m. c \<noteq> RecordPayment lid a m) \<and>
    i < length (loans s') \<and> i < length (loans s) \<and>
    isOverdue (loans s ! i) \<and> overdueInterestApplied (loans s ! i)"
  then have "isOverdue (loans s' ! i) \<and> overdueInterestApplied (loans s' ! i) \<and>
      totalDue (loans s' ! i) = totalDue (loans s ! i)"
    by (intro step_keeps_bumped [of cal t c s s' i]) simp_all
  then show "isOverdue (loans s' ! i)" and "overdueInterestApplied (loans s' ! i)"
    and "totalDue (loans s' ! i) = totalDue (loans s ! i)" by simp_all
qed

text \<open>
  C7, at the sample session: the first sweep after the due date bumps Bob's loan to
  337.08; a later sweep leaves the loan, and the ledger, as the first one left them.
\<close>

theorem overdue_bump_once_witness:
  "updateOverdueLoan 2592000007 loanApproved = loanBumped \<and>
   updateOverdueLoan 2592000100 loanBumped = loanBumped \<and>
   updateOverdueLoans 2592000100
       (updateOverdueLoans 2592000007 (sampleLedger alice [loanApproved] []))
     = sampleLedger alice [loanBumped] [] \<and>
   step cal0 2592000100 OverdueSweep (sampleLedger alice [loanBumped] [])
     = Inr (sampleLedger alice [loanBumped] []) \<and>
   totalDue (loans (sampleLedger alice [loanBumped] []) ! 0) = 33708 / 100"
proof -
  have b: "updateOverdueLoan 2592000007 loanApproved = loanBumped"
    by (simp add: sample_defs op_defs loanBumped_def)
  have f: "isOverdue loanBumped \<and> overdueInterestApplied loanBumped"
    by (simp add: loanBumped_def)
  have o: "(2592000007::nat) \<le> 2592000100" by simp
  have s1: "updateOverdueLoans 2592000100 (sampleLedger alice [loanApproved] [])
              = sampleLedger alice [loanBumped] []"
    by (simp add: sample_defs op_defs loanBumped_def)
  have st: "step cal0 2592000100 OverdueSweep (sampleLedger alice [loanBumped] [])
              = Inr (updateOverdueLoans 2592000100 (sampleLedger alice [loanBumped] []))"
    by simp
  have l: "loans (updateOverdueLoans 2592000100 (sampleLedger alice [loanBumped] []))
             = [updateOverdueLoan 2592000100 loanBumped]"
          "loans (sampleLedger alice [loanBumped] []) = [loanBumped]"
    by (simp_all add: updateOverdueLoans_def sampleLedger_def)
  have u: "updateOverdueLoans 2592000100 (sampleLedger alice [loanBumped] [])
             = sampleLedger alice [updateOverdueLoan 2592000100 loanBumped] []"
    by (simp add: updateOverdueLoans_def sampleLedger_def)
  have t: "totalDue loanBumped = 33708 / 100" by (simp add: loanBumped_def)
  from overdue_bump_once [where l = loanBumped and now = 2592000100 and now' = 2592000100
      and s = "sampleLedger alice [loanApproved] []" and cal = cal0 and t = 2592000100
      and c = OverdueSweep and s' = "sampleLedger alice [loanBumped] []" and i = 0]
    overdue_bump_once [where l = loanBumped and now = 2592000007 and now' = 2592000100
      and s = "sampleLedger alice [loanApproved] []" and cal = cal0 and t = 2592000100
      and c = OverdueSweep and s' = "sampleLedger alice [loanBumped] []" and i = 0]
    b f o s1 st l u t
  show ?thesis by simp
qed

section \<open>Payments and the amount due, in exact arithmetic\<close>

lemma overdueInterest_nonneg:
  "paidWithinDue l \<Longrightarrow>
     0 \<le> (totalDue l - principalPaid l - interestPaid l) *
           (if paymentSchedule l = Weekly then WEEKLY_INTEREST_RATE else MONTHLY_INTEREST_RATE)"
  by (rule mult_nonneg_nonneg)
     (simp_all add: paidWithinDue_def WEEKLY_INTEREST_RATE_def MONTHLY_INTEREST_RATE_def)

lemma updateOverdueLoan_paidWithinDue:
  assumes "paidWithinDue l"
  shows "totalDue l \<le> totalDue (updateOverdueLoan now l) \<and> paidWithinDue (updateOverdueLoan now l)"
  using assms overdueInterest_nonneg [OF assms]
  by (simp add: paidWithinDue_def updateOverdueLoan_def Let_def)

lemma recordPayment_exceeds:
  "currentUser s = Some cu \<Longrightarrow> User.role cu = Borrower \<Longrightarrow>
   find (\<lambda>l. Loan.id l = lid) (loans s) = Some loan \<Longrightarrow> Loan.status loan = Approved \<Longrightarrow>
   amt > totalDue loan - principalPaid loan - interestPaid loan \<Longrightarrow>
     recordPayment cal now lid amt m s = Inl PaymentExceedsBalance"
  by (simp add: recordPayment_def)

text \<open>
  In the exact arithmetic of the embedding the two portions of a recorded payment add up
  to the amount paid, the principal portion being the amount less the interest portion.
  (In the double arithmetic of JavaScript the subtraction and the addition each round.)
\<close>

lemma recordPayment_portions_exact:
  assumes "recordPayment cal now lid amt m s = Inr s'" and "s' \<noteq> s"
  shows "\<exists>pay. payments s' = payments s @ [pay] \<and> Payment.amount pay = amt \<and>
           principalAmount pay + interestAmount pay = amt"
  using assms
  by (auto simp: recordPayment_def Let_def split: option.splits if_splits)

lemma recordPayment_paidWithinDue:
  assumes "recordPayment cal now lid amt m s = Inr s'"
    and "\<forall>l \<in> set (loans s). paidWithinDue l"
  shows "\<forall>l \<in> set (loans s'). paidWithinDue l"
proof (cases "s' = s")
  case True
  with assms show ?thesis by simp
next
  case False
  with assms(1) obtain loan where f: "find (\<lambda>l. Loan.id l = lid) (loans s) = Some loan"
    and le: "\<not> amt > totalDue loan - principalPaid loan - interestPaid loan"
    by (auto simp: recordPayment_def Let_def split: option.splits if_splits)
  show ?thesis
    using assms(1) f le assms(2) False
    by (auto simp: recordPayment_def Let_def paidWithinDue_def split: option.splits if_splits)
qed


lemma handleLoanRequest_paidWithinDue:
  assumes "handleLoanRequest now a p s = Inr s'" and "\<forall>l \<in> set (loans s). paidWithinDue l"
  shows "\<forall>l \<in> set (loans s'). paidWithinDue l"
proof (cases "s' = s")
  case True
  with assms show ?thesis by simp
next
  case False
  from assms(1) have pos: "0 < a"
    by (auto simp: handleLoanRequest_def split: if_splits)
  have "0 \<le> a * (if p = Weekly then WEEKLY_INTEREST_RATE else MONTHLY_INTEREST_RATE)"
    using pos by (intro mult_nonneg_nonneg)
      (simp_all add: WEEKLY_INTEREST_RATE_def MONTHLY_INTEREST_RATE_def)
  with pos assms False show ?thesis
    by (auto simp: handleLoanRequest_def requestLoan_def Let_def paidWithinDue_def
        split: if_splits option.splits)
qed

lemma approveLoan_paidWithinDue:
  assumes "approveLoan cal now lid b s = Inr s'" and "\<forall>l \<in> set (loans s). paidWithinDue l"
  shows "\<forall>l \<in> set (loans s'). paidWithinDue l"
  using assms
  by (auto simp: approveLoan_available paidWithinDue_def split: if_splits option.splits)

lemma step_paidWithinDue:
  assumes "step cal t c s = Inr s'" and "\<forall>l \<in> set (loans s). paidWithinDue l"
  shows "\<forall>l \<in> set (loans s'). paidWithinDue l"
proof (cases c)
  case (RegisterUser n r)
  with assms show ?thesis by (auto simp: registerUser_def Let_def split: if_splits)
next
  case (SwitchUser u)
  with assms show ?thesis by (auto simp: switchUser_def split: option.splits)
next
  case (DepositCapital a)
  with assms show ?thesis
    by (auto simp: handleDeposit_def depositCapital_def Let_def split: if_splits option.splits)
next
  case (WithdrawCapital a)
  with assms show ?thesis
    by (auto simp: handleWithdraw_def withdrawCapital_available split: if_splits option.splits)
next
  case (RequestLoan a p)
  with assms show ?thesis by (simp add: handleLoanRequest_paidWithinDue)
next
  case (DecideLoan l b)
  with assms show ?thesis
    using approveLoan_paidWithinDue [of cal t l b s s'] by (simp add: handleLoanAction_def)
next
  case (RecordPayment l a m)
  with assms show ?thesis
    using recordPayment_paidWithinDue [of cal t l a m s s']
    by (simp add: handlePayment_def split: if_splits)
next
  case SystemReset
  with assms show ?thesis by (auto simp: systemReset_def split: if_splits option.splits)
next
  case OverdueSweep
  with assms show ?thesis by (auto simp: updateOverdueLoans_def updateOverdueLoan_paidWithinDue)
qed

lemma reachable_paidWithinDue:
  "reachable cal t s \<Longrightarrow> \<forall>l \<in> set (loans s). paidWithinDue l"
proof (induction rule: reachable.induct)
  case reachable_init
  show ?case by (simp add: initialState_def)
next
  case (reachable_step t s t' c s')
  from reachable_step.hyps(3) reachable_step.IH show ?case by (rule step_paidWithinDue)
qed

text \<open>
  In exact arithmetic the guards do their work: in every state reachable by \<open>step\<close>, on
  every loan the principal paid plus the interest paid is at most the total due; the
  overdue sweep never lowers the total due of such a loan; and \<open>recordPayment\<close> refuses
  every amount greater than total due minus principal paid minus interest paid.
\<close>

lemma paid_never_exceeds_due_exact:
  "reachable cal t s \<Longrightarrow> loan \<in> set (loans s) \<Longrightarrow>
     principalPaid loan + interestPaid loan \<le> totalDue loan \<and>
     totalDue loan \<le> totalDue (updateOverdueLoan now loan) \<and>
     (\<forall>cu lid amt m.
        currentUser s = Some cu \<and> User.role cu = Borrower \<and>
        find (\<lambda>l. Loan.id l = lid) (loans s) = Some loan \<and> Loan.status loan = Approved \<and>
        amt > totalDue loan - principalPaid loan - interestPaid loan \<longrightarrow>
          recordPayment cal now lid amt m s = Inl PaymentExceedsBalance) \<and>
     (\<forall>c s' loan'.
        step cal now c s = Inr s' \<and> loan' \<in> set (loans s') \<longrightarrow>
          principalPaid loan' + interestPaid loan' \<le> totalDue loan')"
proof -
  assume r: "reachable cal t s" and l: "loan \<in> set (loans s)"
  note inv = reachable_paidWithinDue [OF r]
  from inv l have p: "paidWithinDue loan" by simp
  from p have "principalPaid loan + interestPaid loan \<le> totalDue loan"
    by (simp add: paidWithinDue_def)
  moreover from updateOverdueLoan_paidWithinDue [OF p]
  have "totalDue loan \<le> totalDue (updateOverdueLoan now loan)" by simp
  moreover have "\<forall>c s' loan'.
        step cal now c s = Inr s' \<and> loan' \<in> set (loans s') \<longrightarrow>
          principalPaid loan' + interestPaid loan' \<le> totalDue loan'"
  proof (intro allI impI)
    fix c s' loan'
    assume a: "step cal now c s = Inr s' \<and> loan' \<in> set (loans s')"
    then have "step cal now c s = Inr s'" and m: "loan' \<in> set (loans s')" by simp_all
    from step_paidWithinDue [OF this(1) inv] m
    show "principalPaid loan' + interestPaid loan' \<le> totalDue loan'"
      by (simp add: paidWithinDue_def)
  qed
  moreover have "\<forall>cu lid amt m.
        currentUser s = Some cu \<and> User.role cu = Borrower \<and>
        find (\<lambda>l. Loan.id l = lid) (loans s) = Some loan \<and> Loan.status loan = Approved \<and>
        amt > totalDue loan - principalPaid loan - interestPaid loan \<longrightarrow>
          recordPayment cal now lid amt m s = Inl PaymentExceedsBalance"
    by (simp add: recordPayment_exceeds)
  ultimately show ?thesis by blast
qed

text \<open>
  At the sample session after Bob's payment of 150: 150 is paid of the 318 due, and a
  further payment of 169, one more than the 168 that remain, is refused.
\<close>

lemma paid_never_exceeds_due_exact_sample:
  "reachable cal0 8 (sampleLedger bob [loanPartPaid] [payment150]) \<and>
   principalPaid loanPartPaid + interestPaid loanPartPaid = 150 \<and>
   totalDue loanPartPaid = 318 \<and>
   recordPayment cal0 9 ''4'' 169 Cash (sampleLedger bob [loanPartPaid] [payment150])
     = Inl PaymentExceedsBalance"
proof -
  have run: "run cal0 (sessionApproved @ [(7, SwitchUser ''3''), (8, RecordPayment ''4'' 150 Cash)])
     initialState = Inr (sampleLedger bob [loanPartPaid] [payment150])"
    by (simp add: run_append run_sessionApproved)
       (simp add: sample_defs op_defs loanPartPaid_def payment150_def)
  have r: "reachable cal0 8 (sampleLedger bob [loanPartPaid] [payment150])"
    using reachable_run [OF reachable_init _ run] by (simp add: sessionApproved_def)
  have l: "loanPartPaid \<in> set (loans (sampleLedger bob [loanPartPaid] [payment150]))"
    by (simp add: sampleLedger_def)
  have v: "principalPaid loanPartPaid + interestPaid loanPartPaid = 150"
    "totalDue loanPartPaid = 318" "Loan.status loanPartPaid = Approved"
    by (simp_all add: loanPartPaid_def loanApproved_def loanRequested_def)
  have c: "currentUser (sampleLedger bob [loanPartPaid] [payment150]) = Some bob"
    "User.role bob = Borrower"
    "find (\<lambda>l. Loan.id l = ''4'') (loans (sampleLedger bob [loanPartPaid] [payment150])) = Some loanPartPaid"
    by (simp_all add: sampleLedger_def bob_def loanPartPaid_def loanApproved_def loanRequested_def)
  from paid_never_exceeds_due_exact [OF r l, of 9] r v c show ?thesis by simp
qed

section \<open>The available capital, in exact arithmetic\<close>

lemma availableCapital_deployed:
  "availableCapital s =
     sum_list (map Capital.amount (capital s)) - sum_list (map deployed (loans s))"
  by (simp add: availableCapital_sum sum_list_map_filter' deployed_def cong: map_cong)

lemma map_update_other:
  "\<forall>x \<in> set xs. k x \<noteq> a \<Longrightarrow> map (\<lambda>x. if k x = a then u x else x) xs = xs"
  by (induction xs) simp_all

lemma sum_list_update_distinct:
  fixes f :: "'a \<Rightarrow> rat"
  shows "distinct (map k xs) \<Longrightarrow> find (\<lambda>x. k x = a) xs = Some y \<Longrightarrow>
     sum_list (map f (map (\<lambda>x. if k x = a then u x else x) xs)) =
       sum_list (map f xs) - f y + f (u y)"
proof (induction xs)
  case Nil
  then show ?case by simp
next
  case (Cons x xs)
  show ?case
  proof (cases "k x = a")
    case True
    with Cons.prems have y: "y = x" and "\<forall>z \<in> set xs. k z \<noteq> a"
      by (auto simp: image_iff)
    then have "map (\<lambda>x. if k x = a then u x else x) xs = xs" by (simp add: map_update_other)
    with True y show ?thesis by simp
  next
    case False
    with Cons show ?thesis by simp
  qed
qed

lemma map_update_key:
  "(\<And>x. x \<in> set xs \<Longrightarrow> k x = a \<Longrightarrow> g (u x) = g x) \<Longrightarrow>
     map g (map (\<lambda>x. if k x = a then u x else x) xs) = map g xs"
  by (induction xs) simp_all

lemma find_key: "find (\<lambda>x. k x = a) xs = Some y \<Longrightarrow> k y = a \<and> y \<in> set xs"
  by (induction xs) (auto split: if_splits)


lemma find_key_unique:
  "distinct (map k xs) \<Longrightarrow> find (\<lambda>x. k x = a) xs = Some y \<Longrightarrow> x \<in> set xs \<Longrightarrow> k x = a \<Longrightarrow>
     x = y"
  using find_key [of k a xs y] by (auto simp: distinct_map dest: inj_onD)

lemma deployed_nonneg: "0 < Loan.amount l \<Longrightarrow> 0 \<le> deployed l"
  by (simp add: deployed_def)

lemma ledgerInv_later: "ledgerInv t s \<Longrightarrow> t \<le> t' \<Longrightarrow> ledgerInv t' s"
  unfolding ledgerInv_def by (meson order_trans)

lemma ledgerInv_same_loans:
  "ledgerInv t s \<Longrightarrow> loans s' = loans s \<Longrightarrow> 0 \<le> availableCapital s' \<Longrightarrow> ledgerInv t s'"
  by (simp add: ledgerInv_def)

lemma ledgerInv_same_keys:
  "ledgerInv t s \<Longrightarrow> map Loan.id (loans s') = map Loan.id (loans s) \<Longrightarrow>
   map Loan.amount (loans s') = map Loan.amount (loans s) \<Longrightarrow>
   0 \<le> availableCapital s' \<Longrightarrow> ledgerInv t s'"
  by (simp add: ledgerInv_def)

lemma approveLoan_ledgerInv:
  assumes inv: "ledgerInv t s" and ok: "approveLoan cal now lid b s = Inr s'"
  shows "ledgerInv t s'"
proof (cases "s' = s")
  case True
  with inv show ?thesis by simp
next
  case False
  let ?u = "\<lambda>l. if b then l\<lparr>status := Approved, approvedAt := Some now,
     dueDate := Some (if paymentSchedule (the (find (\<lambda>l. Loan.id l = lid) (loans s))) = Weekly
                      then plus7Days cal now else plus1Month cal now)\<rparr>
     else l\<lparr>status := Rejected\<rparr>"
  from ok False obtain loan where f: "find (\<lambda>l. Loan.id l = lid) (loans s) = Some loan"
    and s': "s' = s\<lparr>loans := map (\<lambda>l. if Loan.id l = lid then ?u l else l) (loans s)\<rparr>"
    and chk: "b \<longrightarrow> Loan.amount loan \<le> availableCapital s"
    by (auto simp: approveLoan_available split: option.splits if_splits)
  from inv have d: "distinct (map Loan.id (loans s))" by (simp add: ledgerInv_def)
  from find_key [OF f] inv have "0 < Loan.amount loan" by (simp add: ledgerInv_def)
  then have dn: "0 \<le> deployed loan" by (rule deployed_nonneg)
  have ids: "map Loan.id (loans s') = map Loan.id (loans s)"
    unfolding s' by (simp add: map_update_key)
  have ams: "map Loan.amount (loans s') = map Loan.amount (loans s)"
    unfolding s' by (simp add: map_update_key)
  have "sum_list (map deployed (loans s')) =
          sum_list (map deployed (loans s)) - deployed loan + deployed (?u loan)"
    unfolding s' using sum_list_update_distinct [OF d f, of deployed ?u] by simp
  moreover have "capital s' = capital s" unfolding s' by simp
  ultimately have "availableCapital s' = availableCapital s + deployed loan - deployed (?u loan)"
    by (simp add: availableCapital_deployed)
  moreover have "deployed (?u loan) = (if b then Loan.amount loan else 0)"
    by (simp add: deployed_def)
  moreover from inv have "0 \<le> availableCapital s" by (simp add: ledgerInv_def)
  ultimately have "0 \<le> availableCapital s'" using chk dn by (simp split: if_splits)
  with inv ids ams show ?thesis by (rule ledgerInv_same_keys)
qed

lemma find_key_same:
  "distinct (map k xs) \<Longrightarrow> find (\<lambda>x. k x = k z) xs = Some y \<Longrightarrow> z \<in> set xs \<Longrightarrow> y = z"
  using find_key_unique [of k xs "k z" y z] by simp

lemma recordPayment_keys:
  assumes "distinct (map Loan.id (loans s))" and "recordPayment cal now lid amt m s = Inr s'"
  shows "capital s' = capital s \<and> map Loan.id (loans s') = map Loan.id (loans s) \<and>
         map Loan.amount (loans s') = map Loan.amount (loans s) \<and>
         map deployed (loans s') = map deployed (loans s)"
proof (cases "s' = s")
  case True
  then show ?thesis by simp
next
  case False
  with assms(2) obtain cu loan where cu: "currentUser s = Some cu" "User.role cu = Borrower"
    and f: "find (\<lambda>l. Loan.id l = lid) (loans s) = Some loan"
    and st: "Loan.status loan = Approved"
    and le: "\<not> amt > totalDue loan - principalPaid loan - interestPaid loan"
    by (auto simp: recordPayment_def Let_def split: option.splits if_splits)
  have same: "x = loan" if "x \<in> set (loans s)" "Loan.id x = lid" for x
    using find_key_unique [OF assms(1) f that] .
  from assms(2) cu f st le same show ?thesis
    by (auto simp: recordPayment_def Let_def deployed_def split: if_splits)
qed

lemma recordPayment_ledgerInv:
  assumes inv: "ledgerInv t s" and ok: "recordPayment cal now lid amt m s = Inr s'"
  shows "ledgerInv t s'"
proof -
  from inv have d: "distinct (map Loan.id (loans s))" by (simp add: ledgerInv_def)
  note k = recordPayment_keys [OF d ok]
  from k have "availableCapital s' = availableCapital s"
    by (simp add: availableCapital_deployed)
  with inv have "0 \<le> availableCapital s'" by (simp add: ledgerInv_def)
  with inv k show ?thesis by (intro ledgerInv_same_keys [of t s s']) simp_all
qed


lemma handleLoanRequest_ledgerInv:
  assumes inv: "ledgerInv t s" and lt: "t < t'" and ok: "handleLoanRequest t' a p s = Inr s'"
  shows "ledgerInv t' s'"
proof (cases "s' = s")
  case True
  with inv lt show ?thesis by (simp add: ledgerInv_later)
next
  case False
  from ok have pos: "0 < a" by (auto simp: handleLoanRequest_def split: if_splits)
  from ok False obtain new where s': "s' = s\<lparr>loans := loans s @ [new]\<rparr>"
    and new: "Loan.id new = toString t'" "Loan.amount new = a" "Loan.status new = Pending"
    by (auto simp: handleLoanRequest_def requestLoan_def Let_def split: if_splits option.splits)
  have fresh: "toString t' \<notin> set (map Loan.id (loans s))"
  proof
    assume "toString t' \<in> set (map Loan.id (loans s))"
    with inv obtain t'' where "t'' \<le> t" "toString t' = toString t''"
      by (auto simp: ledgerInv_def)
    with lt show False by (auto dest: toString_inj)
  qed
  have "availableCapital s' = availableCapital s"
    unfolding s' by (simp add: availableCapital_deployed deployed_def new)
  moreover from inv lt have "ledgerInv t' s" by (simp add: ledgerInv_later)
  ultimately show ?thesis
    using pos fresh new unfolding s' ledgerInv_def by auto
qed

lemma handleDeposit_ledgerInv:
  assumes inv: "ledgerInv t s" and ok: "handleDeposit now a s = Inr s'"
  shows "ledgerInv t s'"
proof -
  from ok have pos: "0 < a" and s': "s' = depositCapital now a s"
    by (auto simp: handleDeposit_def split: if_splits)
  have "loans s' = loans s" and "availableCapital s \<le> availableCapital s'"
    using pos unfolding s'
    by (auto simp: depositCapital_def Let_def availableCapital_sum split: option.splits)
  with inv show ?thesis by (intro ledgerInv_same_loans [of t s s']) (simp_all add: ledgerInv_def)
qed

lemma handleWithdraw_ledgerInv:
  assumes inv: "ledgerInv t s" and ok: "handleWithdraw now a s = Inr s'"
  shows "ledgerInv t s'"
proof -
  from ok have w: "withdrawCapital now a s = Inr s'"
    by (auto simp: handleWithdraw_def split: if_splits)
  from inv have "0 \<le> availableCapital s" by (simp add: ledgerInv_def)
  with w have "loans s' = loans s" and "0 \<le> availableCapital s'"
    by (auto simp: withdrawCapital_available availableCapital_sum split: option.splits if_splits)
  with inv show ?thesis by (intro ledgerInv_same_loans [of t s s'])
qed

lemma updateOverdueLoan_keys:
  "Loan.id (updateOverdueLoan now l) = Loan.id l \<and>
   Loan.amount (updateOverdueLoan now l) = Loan.amount l \<and>
   Loan.status (updateOverdueLoan now l) = Loan.status l"
  by (simp add: updateOverdueLoan_def Let_def)

lemma updateOverdueLoans_ledgerInv:
  assumes inv: "ledgerInv t s"
  shows "ledgerInv t (updateOverdueLoans now s)"
proof -
  have d: "deployed (updateOverdueLoan now l) = deployed l" for l
    using updateOverdueLoan_keys [of now l] by (simp add: deployed_def)
  have ids: "map Loan.id (loans (updateOverdueLoans now s)) = map Loan.id (loans s)"
    by (simp add: updateOverdueLoans_def updateOverdueLoan_keys)
  have ams: "map Loan.amount (loans (updateOverdueLoans now s)) = map Loan.amount (loans s)"
    by (simp add: updateOverdueLoans_def updateOverdueLoan_keys)
  have "availableCapital (updateOverdueLoans now s) = availableCapital s"
    by (simp add: availableCapital_deployed updateOverdueLoans_def d comp_def)
  with inv have "0 \<le> availableCapital (updateOverdueLoans now s)" by (simp add: ledgerInv_def)
  with inv ids ams show ?thesis by (rule ledgerInv_same_keys)
qed

lemma systemReset_ledgerInv:
  assumes inv: "ledgerInv t s"
  shows "ledgerInv t (systemReset s)"
  using inv
  by (auto simp: systemReset_def ledgerInv_def availableCapital_sum split: option.splits)

lemma step_ledgerInv:
  assumes inv: "ledgerInv t s" and lt: "t < t'" and ok: "step cal t' c s = Inr s'"
  shows "ledgerInv t' s'"
proof -
  from inv lt have inv': "ledgerInv t' s" by (simp add: ledgerInv_later)
  show ?thesis
  proof (cases c)
    case (RegisterUser n r)
    with ok have "loans s' = loans s" "availableCapital s' = availableCapital s"
      by (auto simp: registerUser_def Let_def availableCapital_sum split: if_splits)
    with inv' show ?thesis by (intro ledgerInv_same_loans [of t' s s']) (simp_all add: ledgerInv_def)
  next
    case (SwitchUser u)
    with ok have "loans s' = loans s" "availableCapital s' = availableCapital s"
      by (auto simp: switchUser_def availableCapital_sum split: option.splits)
    with inv' show ?thesis by (intro ledgerInv_same_loans [of t' s s']) (simp_all add: ledgerInv_def)
  next
    case (DepositCapital a)
    with ok inv' show ?thesis by (simp add: handleDeposit_ledgerInv [of t' s t' a s'])
  next
    case (WithdrawCapital a)
    with ok inv' show ?thesis by (simp add: handleWithdraw_ledgerInv [of t' s t' a s'])
  next
    case (RequestLoan a p)
    with ok inv lt show ?thesis by (simp add: handleLoanRequest_ledgerInv [of t s t' a p s'])
  next
    case (DecideLoan l b)
    with ok inv' show ?thesis
      by (simp add: handleLoanAction_def approveLoan_ledgerInv [of t' s cal t' l b s'])
  next
    case (RecordPayment l a m)
    with ok inv' show ?thesis
      by (auto simp: handlePayment_def recordPayment_ledgerInv [of t' s cal t' l a m s']
          split: if_splits)
  next
    case SystemReset
    with ok inv' show ?thesis by (auto simp: systemReset_ledgerInv)
  next
    case OverdueSweep
    with ok inv' show ?thesis by (auto simp: updateOverdueLoans_ledgerInv)
  qed
qed

lemma reachable_ledgerInv: "reachable cal t s \<Longrightarrow> ledgerInv t s"
proof (induction rule: reachable.induct)
  case reachable_init
  show ?case by (simp add: ledgerInv_def initialState_def availableCapital_sum)
next
  case (reachable_step t s t' c s')
  from reachable_step.IH reachable_step.hyps(2,3) show ?case by (rule step_ledgerInv)
qed

lemma recordPayment_principalPaid_nonneg:
  assumes "recordPayment cal now lid amt m s = Inr s'"
    and "\<forall>l \<in> set (loans s). 0 \<le> principalPaid l"
  shows "\<forall>l \<in> set (loans s'). 0 \<le> principalPaid l"
proof (cases "s' = s")
  case True
  with assms show ?thesis by simp
next
  case False
  with assms(1) obtain loan where f: "find (\<lambda>l. Loan.id l = lid) (loans s) = Some loan"
    by (auto simp: recordPayment_def Let_def split: option.splits if_splits)
  from find_key [OF f] assms(2) have "0 \<le> principalPaid loan" by simp
  with assms f False show ?thesis
    by (auto simp: recordPayment_def Let_def split: option.splits if_splits)
qed

lemma step_principalPaid_nonneg:
  assumes "step cal t c s = Inr s'" and "\<forall>l \<in> set (loans s). 0 \<le> principalPaid l"
  shows "\<forall>l \<in> set (loans s'). 0 \<le> principalPaid l"
proof (cases c)
  case (RegisterUser n r)
  with assms show ?thesis by (auto simp: registerUser_def Let_def split: if_splits)
next
  case (SwitchUser u)
  with assms show ?thesis by (auto simp: switchUser_def split: option.splits)
next
  case (DepositCapital a)
  with assms show ?thesis
    by (auto simp: handleDeposit_def depositCapital_def Let_def split: if_splits option.splits)
next
  case (WithdrawCapital a)
  with assms show ?thesis
    by (auto simp: handleWithdraw_def withdrawCapital_available split: if_splits option.splits)
next
  case (RequestLoan a p)
  with assms show ?thesis
    by (auto simp: handleLoanRequest_def requestLoan_def Let_def split: if_splits option.splits)
next
  case (DecideLoan l b)
  with assms show ?thesis
    by (auto simp: handleLoanAction_def approveLoan_available split: if_splits option.splits)
next
  case (RecordPayment l a m)
  with assms show ?thesis
    using recordPayment_principalPaid_nonneg [of cal t l a m s s']
    by (simp add: handlePayment_def split: if_splits)
next
  case SystemReset
  with assms show ?thesis by (auto simp: systemReset_def split: if_splits option.splits)
next
  case OverdueSweep
  with assms show ?thesis
    by (auto simp: updateOverdueLoans_def updateOverdueLoan_def Let_def)
qed

lemma reachable_principalPaid_nonneg:
  "reachable cal t s \<Longrightarrow> \<forall>l \<in> set (loans s). 0 \<le> principalPaid l"
proof (induction rule: reachable.induct)
  case reachable_init
  show ?case by (simp add: initialState_def)
next
  case (reachable_step t s t' c s')
  from reachable_step.hyps(3) reachable_step.IH show ?case by (rule step_principalPaid_nonneg)
qed

lemma spec_deployed_le:
  "0 < Loan.amount l \<Longrightarrow> 0 \<le> principalPaid l \<Longrightarrow>
     (if Loan.status l = Approved \<and> spec_outstandingPrincipal l > 0
      then spec_outstandingPrincipal l else 0) \<le> deployed l"
  by (simp add: spec_outstandingPrincipal_def deployed_def)

lemma spec_AvailableCapital_ge:
  assumes "\<forall>l \<in> set (loans s). 0 < Loan.amount l" and "\<forall>l \<in> set (loans s). 0 \<le> principalPaid l"
  shows "availableCapital s \<le> spec_AvailableCapital s"
proof -
  have "sum_list (map (\<lambda>l. if Loan.status l = Approved \<and> spec_outstandingPrincipal l > 0
                          then spec_outstandingPrincipal l else 0) (loans s))
          \<le> sum_list (map deployed (loans s))"
    using assms by (intro sum_list_mono spec_deployed_le) simp_all
  then show ?thesis
    by (simp add: availableCapital_deployed spec_AvailableCapital_def sum_list_map_filter')
qed

text \<open>
  In exact arithmetic the guards do their work: in every state reachable by \<open>step\<close> the
  available capital is at least zero, the figure that the code computes and with it
  the specification's figure, which is never smaller; and every command preserves
  this.
\<close>

lemma availableCapital_nonneg_exact:
  "reachable cal t s \<Longrightarrow>
     0 \<le> availableCapital s \<and> availableCapital s \<le> spec_AvailableCapital s \<and>
     (\<forall>t' c s'. t < t' \<and> step cal t' c s = Inr s' \<longrightarrow> 0 \<le> availableCapital s')"
proof -
  assume r: "reachable cal t s"
  note inv = reachable_ledgerInv [OF r]
  from inv have "0 \<le> availableCapital s" and "\<forall>l \<in> set (loans s). 0 < Loan.amount l"
    by (simp_all add: ledgerInv_def)
  moreover have "\<forall>t' c s'. t < t' \<and> step cal t' c s = Inr s' \<longrightarrow> 0 \<le> availableCapital s'"
  proof (intro allI impI)
    fix t' c s'
    assume "t < t' \<and> step cal t' c s = Inr s'"
    then have "t < t'" and "step cal t' c s = Inr s'" by simp_all
    from step_ledgerInv [OF inv this] show "0 \<le> availableCapital s'"
      by (simp add: ledgerInv_def)
  qed
  moreover from reachable_principalPaid_nonneg [OF r] calculation(2)
  have "availableCapital s \<le> spec_AvailableCapital s"
    by (intro spec_AvailableCapital_ge) simp_all
  ultimately show ?thesis by blast
qed

text \<open>
  At the sample session after Bob's payment of 150: the state is reachable, the code's
  figure is 200 and the specification's is 332.
\<close>

lemma availableCapital_nonneg_exact_sample:
  "reachable cal0 9 (sampleLedger alice [loanPartPaid] [payment150]) \<and>
   (0::rat) \<le> 200 \<and> (200::rat) \<le> 332 \<and>
   availableCapital (sampleLedger alice [loanPartPaid] [payment150]) = 200 \<and>
   spec_AvailableCapital (sampleLedger alice [loanPartPaid] [payment150]) = 332"
proof -
  have r: "reachable cal0 9 (sampleLedger alice [loanPartPaid] [payment150])"
    using reachable_run [OF reachable_init _ run_sessionPartPaid]
    by (simp add: sessionApproved_def)
  have v: "availableCapital (sampleLedger alice [loanPartPaid] [payment150]) = 200"
    "spec_AvailableCapital (sampleLedger alice [loanPartPaid] [payment150]) = 332"
    by (simp_all add: availableCapital_sum spec_AvailableCapital_def spec_outstandingPrincipal_def
        sample_defs loanPartPaid_def)
  from availableCapital_nonneg_exact [OF r] r v show ?thesis by simp
qed

section \<open>Double arithmetic\<close>

lemma floor_rat_numeral: "\<lfloor>(numeral a / numeral b :: rat)\<rfloor> = numeral a div numeral b"
  by (metis floor_divide_of_int_eq of_int_numeral)

lemma floor_rat_one_numeral: "\<lfloor>(1 / numeral b :: rat)\<rfloor> = 1 div numeral b"
  by (metis floor_divide_of_int_eq of_int_1 of_int_numeral)

lemmas round64_eval = round64_def roundHalfEven_def ulp64_def binade_def
  scaleUp.simps scaleDown.simps floor_rat_numeral floor_rat_one_numeral Let_def

lemmas op_fl_defs = handleDeposit_fl_def handleWithdraw_fl_def withdrawCapital_fl_def
  handleLoanRequest_fl_def requestLoan_fl_def approveLoan_fl_def handlePayment_fl_def
  recordPayment_fl_def updateOverdueLoans_fl_def updateOverdueLoan_fl_def
  totalCapital_fl_def totalLoaned_fl_def availableCapital_fl_def

lemma step_fl_exact: "step_fl (\<lambda>x. x) cal now c s = step cal now c s"
  by (cases c)
     (simp_all add: op_fl_defs handleDeposit_def handleWithdraw_def withdrawCapital_def
       handleLoanRequest_def requestLoan_def handleLoanAction_def approveLoan_def
       handlePayment_def recordPayment_def updateOverdueLoans_def updateOverdueLoan_def
       Let_def cong: if_cong)

lemma run_fl_exact: "run_fl (\<lambda>x. x) cal cs s = run cal cs s"
  by (induction cs arbitrary: s) (auto simp: step_fl_exact split: sum.splits)

text \<open>With the identity for \<open>fl\<close> each operation is its exact reading.\<close>

lemma operations_fl_exact:
  "updateOverdueLoan_fl (\<lambda>x. x) = updateOverdueLoan"
  "updateOverdueLoans_fl (\<lambda>x. x) = updateOverdueLoans"
  "withdrawCapital_fl (\<lambda>x. x) = withdrawCapital"
  "requestLoan_fl (\<lambda>x. x) = requestLoan"
  "approveLoan_fl (\<lambda>x. x) = approveLoan"
  "recordPayment_fl (\<lambda>x. x) = recordPayment"
  "availableCapital_fl (\<lambda>x. x) = availableCapital"
  by (auto simp: fun_eq_iff op_fl_defs updateOverdueLoan_def updateOverdueLoans_def
      withdrawCapital_def requestLoan_def approveLoan_def recordPayment_def
      availableCapital_def totalCapital_def totalLoaned_def Let_def)

text \<open>
  The rounding at work: a double is kept, a tie goes to the even significand, the sign
  is carried.
\<close>

lemma round64_examples:
  "round64 300 = 300"
  "round64 (1 / 2 ^ 53 + 1) = 1"
  "round64 (2 ^ 53 + 1) = 2 ^ 53"
  "round64 (2 ^ 53 + 3) = 2 ^ 53 + 4"
  "round64 (1 / 3) = 6004799503160661 / 2 ^ 54"
  "round64 (- (1 / 10)) = - (3602879701896397 / 2 ^ 55)"
  "round64 (round64 (1 / 10)) = round64 (1 / 10)"
  by (simp_all add: round64_eval)

lemmas eval64 = round64_eval op_fl_defs sample_defs registerUser_def depositCapital_def
  switchUser_def MAX_BORROWERS_def MAX_LOAN_AMOUNT_def WEEKLY_INTEREST_RATE_def
  MONTHLY_INTEREST_RATE_def Let_def toString_digit digit_def initialState_def sessionOpen_def

text \<open>The doubles written \<^verbatim>\<open>0.02\<close>, \<^verbatim>\<open>0.06\<close>, \<^verbatim>\<open>0.57\<close> and \<^verbatim>\<open>11.66\<close>.\<close>

lemma round64_literals:
  "round64 (2 / 100) = 5764607523034235 / 2 ^ 58"
  "round64 (6 / 100) = 1080863910568919 / 2 ^ 54"
  "round64 (57 / 100) = 5134103575202365 / 2 ^ 53"
  "round64 (1166 / 100) = 3281998228446249 / 2 ^ 48"
  by (simp_all add: round64_eval)

lemma reachable_fl_exact: "reachable_fl (\<lambda>x. x) cal t s \<longleftrightarrow> reachable cal t s"
proof
  show "reachable_fl (\<lambda>x. x) cal t s \<Longrightarrow> reachable cal t s"
    by (induction rule: reachable_fl.induct)
       (auto simp: step_fl_exact intro: reachable_init reachable_step)
  show "reachable cal t s \<Longrightarrow> reachable_fl (\<lambda>x. x) cal t s"
    by (induction rule: reachable.induct)
       (auto simp: step_fl_exact [symmetric] intro: reachable_fl_init reachable_fl_step)
qed

lemma reachable_fl_run:
  "reachable_fl fl cal t s \<Longrightarrow> increasing t cs \<Longrightarrow> run_fl fl cal cs s = Inr s' \<Longrightarrow>
     reachable_fl fl cal (lastTime t cs) s'"
proof (induction cs arbitrary: t s)
  case Nil
  then show ?case by simp
next
  case (Cons tc cs)
  obtain t' c where tc: "tc = (t', c)" by (cases tc)
  from Cons.prems(3) tc obtain s1 where s1: "step_fl fl cal t' c s = Inr s1"
    and r: "run_fl fl cal cs s1 = Inr s'"
    by (auto split: sum.splits)
  from Cons.prems(2) tc have lt: "t < t'" and inc: "increasing t' cs" by simp_all
  from Cons.prems(1) lt s1 have "reachable_fl fl cal t' s1" by (rule reachable_fl_step)
  from Cons.IH [OF this inc r] tc show ?case by simp
qed

lemma run_fl_sessionCents:
  "run_fl round64 cal0
     (sessionOpen 500 1 @ [(7, SwitchUser ''3''), (8, RecordPayment ''4'' (57 / 100) Cash)])
     initialState = Inr (sampleLedger bob [loanOnePaid] [payment057])"
  by (simp add: eval64 loanOne_def loanOnePaid_def payment057_def)

lemma run_fl_sessionOverpaid:
  "run_fl round64 cal0
     (sessionOpen 500 11 @
        [(7, SwitchUser ''3''), (8, RecordPayment ''4'' (20 / 100) Cash),
         (9, RecordPayment ''4'' (1146 / 100) Cash)])
     initialState = Inr (sampleLedger bob [loanElevenPaid] [payment020, payment1146])"
  by (simp add: eval64 loanEleven_def loanElevenPaid_def payment020_def payment1146_def)

lemma run_fl_sessionOverdrawn:
  "run_fl round64 cal0
     (sessionOpen 20000000000000000 1 @ [(7, WithdrawCapital 20000000000000000)])
     initialState = Inr ledgerOverdrawn"
  by (simp add: eval64 loanOne_def ledgerOverdrawn_def)

text \<open>
  The sample session in double arithmetic, where it goes as in exact arithmetic: after
  the payment of 150 the available capital is 200 and a withdrawal of 250 is refused;
  and after the sweep has added 19.08 to the 318 due on the unpaid loan, the payment
  of 37 is split into 36 of interest and 1 of principal.
\<close>

lemma sample_session_rounded:
  "run_fl round64 cal0
     (sessionOpen 500 300 @ [(7, SwitchUser ''3''), (8, RecordPayment ''4'' 150 Cash),
        (9, SwitchUser ''1''), (10, WithdrawCapital 250)])
     initialState = Inl InsufficientAvailableCapital"
  "map (\<lambda>p. (Payment.amount p, principalAmount p, interestAmount p))
     (payments (case run_fl round64 cal0
        (sessionOpen 500 300 @ [(2592000007, OverdueSweep), (2592000008, SwitchUser ''3''),
           (2592000009, RecordPayment ''4'' 37 Cash)])
        initialState of Inr s \<Rightarrow> s | Inl e \<Rightarrow> initialState))
   = [(37, 1, 36)]"
  by (simp_all add: eval64 toString_2592000009)

text \<open>
  C6, at an input where the code departs from it. Bob owes 1.06 on a monthly loan of 1
  and pays 0.57. \<open>recordPayment\<close> takes the interest portion 0.06 and the principal
  portion 0.57 - 0.06, which in doubles is 0.51. The two portions recorded do not add
  up to the amount recorded: their exact sum is above it by \<open>1 / 2 ^ 54\<close>, and their sum
  in doubles, 0.5700000000000001, by \<open>1 / 2 ^ 53\<close>.
\<close>

theorem recordPayment_portions_rounded:
  "run_fl round64 cal0
     (sessionOpen 500 1 @ [(7, SwitchUser ''3''), (8, RecordPayment ''4'' (57 / 100) Cash)])
     initialState = Inr (sampleLedger bob [loanOnePaid] [payment057]) \<and>
   reachable_fl round64 cal0 8 (sampleLedger bob [loanOnePaid] [payment057]) \<and>
   Payment.amount payment057 = round64 (57 / 100) \<and>
   principalAmount payment057 = round64 (51 / 100) \<and>
   interestAmount payment057 = round64 (6 / 100) \<and>
   principalAmount payment057 + interestAmount payment057
     = Payment.amount payment057 + 1 / 2 ^ 54 \<and>
   round64 (principalAmount payment057 + interestAmount payment057)
     = Payment.amount payment057 + 1 / 2 ^ 53"
proof -
  have "reachable_fl round64 cal0 8 (sampleLedger bob [loanOnePaid] [payment057])"
    using reachable_fl_run [OF reachable_fl_init _ run_fl_sessionCents]
    by (simp add: sessionOpen_def)
  moreover have
    "principalAmount payment057 + interestAmount payment057
       = Payment.amount payment057 + 1 / 2 ^ 54"
    "round64 (principalAmount payment057 + interestAmount payment057)
       = Payment.amount payment057 + 1 / 2 ^ 53"
    by (simp_all add: payment057_def round64_eval)
  moreover have "Payment.amount payment057 = round64 (57 / 100)"
    "principalAmount payment057 = round64 (51 / 100)"
    "interestAmount payment057 = round64 (6 / 100)"
    by (simp_all add: payment057_def)
  moreover note run_fl_sessionCents
  ultimately show ?thesis by blast
qed

text \<open>
  C9, at an input where the code departs from it. Bob owes 11.66 on a monthly loan of
  11 and pays 0.20 and then 11.46, the remaining balance as the code computes it, so
  that neither payment is refused. Afterwards the principal paid is
  11.000000000000002 and the interest paid 0.6599999999999999: their exact sum is
  above the total due by \<open>7 / 2 ^ 52\<close>, and their sum in doubles, 11.660000000000002,
  by \<open>1 / 2 ^ 49\<close>.
\<close>

theorem paid_exceeds_due_rounded:
  "run_fl round64 cal0
     (sessionOpen 500 11 @
        [(7, SwitchUser ''3''), (8, RecordPayment ''4'' (20 / 100) Cash),
         (9, RecordPayment ''4'' (1146 / 100) Cash)])
     initialState = Inr (sampleLedger bob [loanElevenPaid] [payment020, payment1146]) \<and>
   reachable_fl round64 cal0 9 (sampleLedger bob [loanElevenPaid] [payment020, payment1146]) \<and>
   totalDue loanElevenPaid = round64 (1166 / 100) \<and>
   principalPaid loanElevenPaid + interestPaid loanElevenPaid
     = totalDue loanElevenPaid + 7 / 2 ^ 52 \<and>
   round64 (principalPaid loanElevenPaid + interestPaid loanElevenPaid)
     = totalDue loanElevenPaid + 1 / 2 ^ 49 \<and>
   \<not> principalPaid loanElevenPaid + interestPaid loanElevenPaid \<le> totalDue loanElevenPaid"
proof -
  have "reachable_fl round64 cal0 9
          (sampleLedger bob [loanElevenPaid] [payment020, payment1146])"
    using reachable_fl_run [OF reachable_fl_init _ run_fl_sessionOverpaid]
    by (simp add: sessionOpen_def)
  moreover have
    "totalDue loanElevenPaid = round64 (1166 / 100)"
    "principalPaid loanElevenPaid + interestPaid loanElevenPaid
       = totalDue loanElevenPaid + 7 / 2 ^ 52"
    "round64 (principalPaid loanElevenPaid + interestPaid loanElevenPaid)
       = totalDue loanElevenPaid + 1 / 2 ^ 49"
    by (simp_all add: loanElevenPaid_def loanEleven_def round64_eval)
  moreover have "\<not> principalPaid loanElevenPaid + interestPaid loanElevenPaid
                 \<le> totalDue loanElevenPaid"
    by (simp add: loanElevenPaid_def loanEleven_def round64_eval)
  moreover note run_fl_sessionOverpaid
  ultimately show ?thesis by blast
qed

text \<open>
  C8, at an input where the code departs from it. Alice deposits 20000000000000000,
  Bob's loan of 1 is approved, and Alice withdraws 20000000000000000. The withdrawal
  is compared with 20000000000000000 - 1, which in doubles is 20000000000000000, and
  is not refused. Afterwards the capital entries sum to 0 with a loan of 1 approved:
  the available capital is -1, in doubles and exactly, and by the specification's
  formula as well.
\<close>

theorem availableCapital_negative_rounded:
  "run_fl round64 cal0
     (sessionOpen 20000000000000000 1 @ [(7, WithdrawCapital 20000000000000000)])
     initialState = Inr ledgerOverdrawn \<and>
   reachable_fl round64 cal0 7 ledgerOverdrawn \<and>
   availableCapital_fl round64 ledgerOverdrawn = - 1 \<and>
   availableCapital ledgerOverdrawn = - 1 \<and>
   spec_AvailableCapital ledgerOverdrawn = - 1"
proof -
  have "reachable_fl round64 cal0 7 ledgerOverdrawn"
    using reachable_fl_run [OF reachable_fl_init _ run_fl_sessionOverdrawn]
    by (simp add: sessionOpen_def)
  moreover have "availableCapital_fl round64 ledgerOverdrawn = - 1"
    by (simp add: ledgerOverdrawn_def loanOne_def sample_defs op_fl_defs round64_eval)
  moreover have "availableCapital ledgerOverdrawn = - 1"
    "spec_AvailableCapital ledgerOverdrawn = - 1"
    by (simp_all add: availableCapital_sum spec_AvailableCapital_def
        spec_outstandingPrincipal_def ledgerOverdrawn_def loanOne_def sample_defs)
  moreover note run_fl_sessionOverdrawn
  ultimately show ?thesis by blast
qed

end
